theory Spec2Isabelle
  imports Complex_Main "HOL-Library.Product_Lexorder"
begin

section \<open>Text primitives\<close>

text \<open>
  A Python \<open>str\<close> is modelled as a \<open>string\<close>. User text is read as ASCII, one
  \<open>char\<close> per code point; on that range the primitives below are the ones Python's
  \<open>str.lower\<close>, \<open>str.strip\<close> and the \<open>re\<close> classes \<open>\s\<close>, \<open>\d\<close>, \<open>\w\<close> use.
  The text constants of the program that are not ASCII are kept as the UTF-8 bytes of the
  source file.
\<close>

definition is_upper :: "char \<Rightarrow> bool" where
  "is_upper c = (c \<in> set ''ABCDEFGHIJKLMNOPQRSTUVWXYZ'')"

definition is_lower :: "char \<Rightarrow> bool" where
  "is_lower c = (c \<in> set ''abcdefghijklmnopqrstuvwxyz'')"

definition is_digit :: "char \<Rightarrow> bool" where
  "is_digit c = (c \<in> set ''0123456789'')"

text \<open>Whitespace of \<open>str.isspace\<close> below 128: tab, LF, VT, FF, CR, FS, GS, RS, US, space.\<close>

definition is_space :: "char \<Rightarrow> bool" where
  "is_space c = (c \<in> set [CHR '' '', CHR 0x09, CHR 0x0A, CHR 0x0B, CHR 0x0C, CHR 0x0D,
                            CHR 0x1C, CHR 0x1D, CHR 0x1E, CHR 0x1F])"

definition is_word :: "char \<Rightarrow> bool" where
  "is_word c = (is_lower c \<or> is_upper c \<or> is_digit c \<or> c = CHR ''_'')"

definition lower_char :: "char \<Rightarrow> char" where
  "lower_char c =
     (case map_of (zip ''ABCDEFGHIJKLMNOPQRSTUVWXYZ'' ''abcdefghijklmnopqrstuvwxyz'') c of
        None \<Rightarrow> c
      | Some d \<Rightarrow> d)"

definition lower :: "string \<Rightarrow> string" where
  "lower s = map lower_char s"

definition strip :: "string \<Rightarrow> string" where
  "strip s = rev (dropWhile is_space (rev (dropWhile is_space s)))"

text \<open>Python's \<open>needle in haystack\<close> on strings.\<close>

fun contains :: "string \<Rightarrow> string \<Rightarrow> bool" where
  "contains [] needle = (needle = [])"
| "contains (c # cs) needle =
     (take (length needle) (c # cs) = needle \<or> contains cs needle)"

section \<open>Regular expressions of the pattern tables\<close>

text \<open>
  The fragment of Python's \<open>re\<close> syntax that the pattern tables use. Matching is the
  backtracking search of \<open>re\<close>: \<open>ends r st\<close> lists, in the order in which the engine
  tries them, the positions at which a match of \<open>r\<close> that starts at \<open>st\<close> can end. A
  position is the character before it (if any) and the text that remains.
\<close>

datatype cclass = Dot | Space | Digit | Chars string | Union cclass cclass

datatype regex =
    Lit string
  | Cls cclass
  | Seq regex regex
  | Alt regex regex
  | Opt regex
  | Star regex
  | Plus regex
  | Rep regex nat nat
  | WordB
  | Bol
  | Eol

type_synonym pos = "char option \<times> string"

primrec in_class :: "cclass \<Rightarrow> char \<Rightarrow> bool" where
  "in_class Dot c = (c \<noteq> CHR 0x0A)"
| "in_class Space c = is_space c"
| "in_class Digit c = is_digit c"
| "in_class (Chars cs) c = (lower_char c \<in> set (map lower_char cs))"
| "in_class (Union a b) c = (in_class a c \<or> in_class b c)"

text \<open>A literal, compared without regard to case (\<open>re.IGNORECASE\<close>).\<close>

fun lit_ends :: "string \<Rightarrow> pos \<Rightarrow> pos list" where
  "lit_ends [] st = [st]"
| "lit_ends (c # cs) (p, []) = []"
| "lit_ends (c # cs) (p, x # xs) =
     (if lower_char c = lower_char x then lit_ends cs (Some x, xs) else [])"

text \<open>
  Greedy repetition: one more iteration is tried before stopping, and an iteration that
  consumes nothing is not repeated. The fuel is the length of the remaining text.
\<close>

fun star_ends :: "(pos \<Rightarrow> pos list) \<Rightarrow> nat \<Rightarrow> pos \<Rightarrow> pos list" where
  "star_ends f 0 st = [st]"
| "star_ends f (Suc n) st =
     concat (map (\<lambda>st'. if length (snd st') < length (snd st) then star_ends f n st' else [])
                 (f st)) @ [st]"

text \<open>Bounded repetition \<open>{m,n}\<close>, greedy: \<open>lo\<close> iterations are owed, \<open>extra\<close> more are allowed.\<close>

fun rep_ends :: "(pos \<Rightarrow> pos list) \<Rightarrow> nat \<Rightarrow> nat \<Rightarrow> pos \<Rightarrow> pos list" where
  "rep_ends f 0 0 st = [st]"
| "rep_ends f 0 (Suc extra) st = concat (map (rep_ends f 0 extra) (f st)) @ [st]"
| "rep_ends f (Suc lo) extra st = concat (map (rep_ends f lo extra) (f st))"

definition at_boundary :: "pos \<Rightarrow> bool" where
  "at_boundary st =
     ((case fst st of None \<Rightarrow> False | Some c \<Rightarrow> is_word c)
      \<noteq> (case snd st of [] \<Rightarrow> False | c # _ \<Rightarrow> is_word c))"

primrec ends :: "regex \<Rightarrow> pos \<Rightarrow> pos list" where
  "ends (Lit cs) st = lit_ends cs st"
| "ends (Cls k) st =
     (case snd st of [] \<Rightarrow> [] | x # xs \<Rightarrow> if in_class k x then [(Some x, xs)] else [])"
| "ends (Seq a b) st = concat (map (ends b) (ends a st))"
| "ends (Alt a b) st = ends a st @ ends b st"
| "ends (Opt a) st = ends a st @ [st]"
| "ends (Star a) st = star_ends (ends a) (length (snd st)) st"
| "ends (Plus a) st =
     concat (map (\<lambda>st'. star_ends (ends a) (length (snd st')) st') (ends a st))"
| "ends (Rep a lo hi) st = rep_ends (ends a) lo (hi - lo) st"
| "ends WordB st = (if at_boundary st then [st] else [])"
| "ends Bol st = (if fst st = None then [st] else [])"
| "ends Eol st = (if snd st = [] \<or> snd st = [CHR 0x0A] then [st] else [])"

text \<open>All positions of a text, from left to right.\<close>

fun positions :: "char option \<Rightarrow> string \<Rightarrow> pos list" where
  "positions p [] = [(p, [])]"
| "positions p (x # xs) = (p, x # xs) # positions (Some x) xs"

text \<open>\<open>re.search(pattern, text, re.IGNORECASE)\<close>, read as a truth value.\<close>

definition re_search :: "regex \<Rightarrow> string \<Rightarrow> bool" where
  "re_search r text = list_ex (\<lambda>st. ends r st \<noteq> []) (positions None text)"

text \<open>
  \<open>re.finditer\<close>: the matches from left to right, each given by its start offset and its
  text (\<open>match.group(0)\<close>); the scan resumes where a match ended. After an empty match
  the engine asks for a non-empty match at the same offset before it moves on.
\<close>

definition matched :: "pos \<Rightarrow> pos \<Rightarrow> string" where
  "matched st e = take (length (snd st) - length (snd e)) (snd st)"

fun finditer_scan :: "regex \<Rightarrow> nat \<Rightarrow> nat \<Rightarrow> pos list \<Rightarrow> (nat \<times> string) list" where
  "finditer_scan r skip i [] = []"
| "finditer_scan r skip i (st # sts) =
     (if 0 < skip then finditer_scan r (skip - 1) (i + 1) sts
      else case ends r st of
        [] \<Rightarrow> finditer_scan r 0 (i + 1) sts
      | e # _ \<Rightarrow>
          if matched st e \<noteq> [] then
            (i, matched st e) # finditer_scan r (length (matched st e) - 1) (i + 1) sts
          else
            (i, []) #
            (case filter (\<lambda>e'. matched st e' \<noteq> []) (ends r st) of
               [] \<Rightarrow> finditer_scan r 0 (i + 1) sts
             | e' # _ \<Rightarrow>
                 (i, matched st e') #
                 finditer_scan r (length (matched st e') - 1) (i + 1) sts))"

definition finditer :: "regex \<Rightarrow> string \<Rightarrow> (nat \<times> string) list" where
  "finditer r text = finditer_scan r 0 0 (positions None text)"

text \<open>Shorthands for writing the tables.\<close>

fun seqs :: "regex list \<Rightarrow> regex" where
  "seqs [] = Lit []"
| "seqs [r] = r"
| "seqs (r # rs) = Seq r (seqs rs)"

fun alts :: "regex list \<Rightarrow> regex" where
  "alts [] = Lit []"
| "alts [r] = r"
| "alts (r # rs) = Alt r (alts rs)"

text \<open>\<open>\s+\<close> and \<open>.*\<close>\<close>

definition ws :: regex where
  "ws = Plus (Cls Space)"

definition any :: regex where
  "any = Star (Cls Dot)"

text \<open>\<open>(w1|w2|...)\<close> of literal words\<close>

definition words :: "string list \<Rightarrow> regex" where
  "words xs = alts (map Lit xs)"

text \<open>\<open>w1\s+w2\s+...\<close>\<close>

fun phrase :: "string list \<Rightarrow> regex" where
  "phrase [] = Lit []"
| "phrase [w] = Lit w"
| "phrase (w # rest) = Seq (Lit w) (Seq ws (phrase rest))"

text \<open>\<open>ws?\<close>: a word with an optional final \<open>s\<close>\<close>

definition plural :: "string \<Rightarrow> regex" where
  "plural w = Seq (Lit w) (Opt (Lit ''s''))"

text \<open>\<open>\b(...)\b\<close>\<close>

definition bw :: "regex \<Rightarrow> regex" where
  "bw r = Seq WordB (Seq r WordB)"

text \<open>\<open>\b(...).*(...)\b\<close>\<close>

definition span :: "regex \<Rightarrow> regex \<Rightarrow> regex" where
  "span a b = Seq WordB (Seq a (Seq any (Seq b WordB)))"

section \<open>Data model of the classifier\<close>

datatype Intent =
    QUERY_ROOMS
  | QUERY_PRICES
  | CHECK_AVAILABILITY
  | COMPARE_RATES
  | BOOK_ROOM
  | GREETING
  | GOODBYE
  | HELP
  | UNKNOWN

text \<open>Confidences are fractions of small naturals; they are kept exact, as rationals.\<close>

record Entity =
  ent_type :: string
  ent_value :: string
  ent_confidence :: rat

record NLUResult =
  intent :: Intent
  confidence :: rat
  entities :: "Entity list"
  original_text :: string

datatype py_error = ZeroDivisionError | ValueError | KeyError | IndexError | FormatError

section \<open>Pattern tables\<close>

text \<open>
  \<open>_initialize_intent_patterns\<close>: the dictionary in the order in which its keys are
  written, which is the order in which Python iterates over it.
\<close>

definition intent_patterns :: "(Intent \<times> regex list) list" where
  "intent_patterns =
   [(GREETING,
      [bw (alts [Lit ''hello'', Lit ''hi'', Lit ''hey'', Lit ''greetings'',
                 Seq (Lit ''good'') (Seq ws (words [''morning'', ''afternoon'', ''evening''])),
                 Lit ''hola'', Lit ''namaste'']),
       seqs [Bol, words [''hi'', ''hello'', ''hey''],
             Star (Cls (Union Space (Chars ''!''))), Eol]]),
    (GOODBYE,
      [bw (alts [Lit ''bye'', Lit ''goodbye'', phrase [''see'', ''you''],
                 phrase [''take'', ''care''], phrase [''have'', ''a'', ''good''],
                 seqs [Lit ''thank'', Star (Cls Space), Lit ''you''],
                 Lit ''thanks'', Lit ''thnx'', Lit ''cheers'']),
       bw (alts [Lit ''bye'', Lit ''cya'', phrase [''see'', ''ya''], Lit ''later'',
                 Lit ''thank''])]),
    (QUERY_ROOMS,
      [span (words [''what'', ''which'', ''show'', ''list'', ''tell'', ''display''])
            (alts [plural ''room'', plural ''type'', plural ''option'',
                   plural ''accommodation'']),
       span (words [''available'', ''have''])
            (alts [plural ''room'', plural ''suite'', plural ''accommodation'']),
       seqs [WordB, plural ''room'', ws,
             alts [Lit ''available'', phrase [''do'', ''you'', ''have''], plural ''type''],
             WordB],
       seqs [WordB, Opt (Seq (phrase [''can'', ''you'']) ws),
             words [''show'', ''tell'', ''describe''], any,
             alts [plural ''room'', plural ''option''], WordB],
       span (alts [phrase [''i'', ''want'', ''to'', ''see''], phrase [''looking'', ''for'']])
            (alts [plural ''room'', plural ''option'']),
       span (alts [phrase [''what'', ''kind''], Seq (Lit ''what'') (Seq ws (plural ''type''))])
            (alts [plural ''room'', plural ''accommodation''])]),
    (QUERY_PRICES,
      [span (alts [Lit ''what'', phrase [''how'', ''much''], phrase [''tell'', ''me'']])
            (words [''price'', ''cost'', ''rate'', ''charge'', ''tariff'', ''fee'']),
       span (words [''price'', ''cost'', ''rate'', ''charge'', ''tariff''])
            (words [''room'', ''deluxe'', ''suite'', ''standard'', ''night'']),
       seqs [WordB, phrase [''how'', ''much''], ws,
             words [''is'', ''are'', ''does'', ''do'', ''for'', ''per''], WordB],
       span (alts [seqs [Lit ''what'', Opt (Lit [CHR 0x27]), Lit ''s''],
                   phrase [''what'', ''is'']])
            (words [''price'', ''cost'', ''rate'']),
       bw (alts [phrase [''how'', ''expensive''], phrase [''how'', ''costly''],
                 Lit ''pricing'', plural ''rate'']),
       span (phrase [''can'', ''you'', ''tell''])
            (words [''price'', ''cost'', ''rate''])]),
    (CHECK_AVAILABILITY,
      [span (words [''available'', ''availability'', ''vacant'', ''free'', ''open''])
            (words [''room'', ''tonight'', ''today'', ''tomorrow'']),
       seqs [WordB, phrase [''do'', ''you'', ''have''], ws, Opt (Seq (Lit ''any'') ws),
             alts [plural ''room'', Lit ''deluxe'', Lit ''suite'', Lit ''standard'',
                   Lit ''vacancy''],
             WordB],
       seqs [WordB, words [''is'', ''are''], any,
             words [''room'', ''deluxe'', ''suite'', ''standard''], any,
             words [''available'', ''vacant'', ''free'', ''open''], WordB],
       seqs [WordB, words [''any'', ''got''], any,
             alts [plural ''room'', Lit ''vacancies'', Lit ''availability''], any,
             words [''available'', ''free'', ''left''], WordB],
       span (alts [phrase [''can'', ''i'', ''get''], phrase [''looking'', ''for'']])
            (words [''room'', ''vacancy''])]),
    (COMPARE_RATES,
      [span (words [''difference'', ''compare'', ''comparison'', ''vs'', ''versus''])
            (words [''rate'', ''price'', ''cost'']),
       span (words [''direct'', ''booking.com'', ''ota'', ''online'', ''makemytrip'',
                    ''agoda''])
            (words [''rate'', ''price'', ''booking'', ''vs'']),
       bw (words [''cheaper'', ''discount'', ''save'', ''saving'', ''deal'', ''offer'']),
       seqs [WordB, Opt (Seq (Lit ''why'') ws),
             alts [phrase [''book'', ''direct''], phrase [''direct'', ''booking'']], WordB],
       bw (alts [phrase [''better'', ''deal''], phrase [''best'', ''price''],
                 phrase [''lowest'', ''rate'']])]),
    (BOOK_ROOM,
      [bw (alts [Lit ''book'', Lit ''reserve'', Lit ''reservation'',
                 phrase [''make'', ''a'', ''booking'']]),
       seqs [WordB, phrase [''i'', ''want''], ws,
             alts [phrase [''to'', ''book''], phrase [''to'', ''reserve''],
                   phrase [''a'', ''room'']],
             WordB],
       span (alts [phrase [''can'', ''i''], phrase [''how'', ''to''],
                   phrase [''how'', ''do'', ''i'']])
            (words [''book'', ''reserve'']),
       bw (alts [phrase [''direct'', ''book''], phrase [''book'', ''direct''],
                 phrase [''book'', ''from'', ''here'']]),
       bw (alts [phrase [''need'', ''a'', ''room''], phrase [''want'', ''a'', ''room''],
                 phrase [''get'', ''a'', ''room'']]),
       span (alts [Lit ''proceed'', phrase [''go'', ''ahead'']])
            (words [''booking'', ''reservation''])]),
    (HELP,
      [bw (words [''help'', ''assist'', ''support'']),
       span (words [''what'', ''when'', ''where'', ''how''])
            (alts [seqs [Lit ''check'', Opt (Cls (Chars '' -'')), Lit ''in''],
                   seqs [Lit ''check'', Opt (Cls (Chars '' -'')), Lit ''out''],
                   Lit ''time'', Lit ''hour'']),
       bw (alts [Lit ''wifi'', Lit ''internet'',
                 seqs [Lit ''wi'', Opt (Cls (Chars '' -'')), Lit ''fi''], Lit ''password'']),
       bw (words [''parking'', ''park'']),
       bw (words [''breakfast'', ''food'', ''meal'', ''dining'']),
       bw (words [''cancel'', ''cancellation'', ''refund'']),
       bw (words [''payment'', ''pay'', ''credit'', ''cash'']),
       bw (words [''pet'', ''pets'', ''dog'', ''cat'', ''animal'']),
       bw (words [''allow'', ''accept'', ''permit'']),
       bw (alts [Seq (Lit ''do you '') (words [''have'', ''offer'', ''provide'']),
                 Lit ''is there'', Lit ''can i'',
                 seqs [Lit ''are'', any, Lit ''allowed'']]),
       bw (words [''policy'', ''policies'', ''rule'', ''rules'']),
       bw (words [''pickup'', ''airport'', ''transport''])])]"

text \<open>\<open>_initialize_entity_patterns\<close>, again in the order written.\<close>

definition entity_patterns :: "(string \<times> (regex \<times> string option) list) list" where
  "entity_patterns =
   [(''room_type'',
      [(bw (phrase [''deluxe'', ''room'']), Some ''deluxe''),
       (bw (Lit ''deluxe''), Some ''deluxe''),
       (bw (phrase [''suite'', ''room'']), Some ''suite''),
       (bw (Lit ''suite''), Some ''suite''),
       (bw (phrase [''standard'', ''room'']), Some ''standard''),
       (bw (Lit ''standard''), Some ''standard''),
       (bw (phrase [''executive'', ''room'']), Some ''executive''),
       (bw (Lit ''executive''), Some ''executive''),
       (bw (phrase [''luxury'', ''room'']), Some ''deluxe''),
       (bw (phrase [''premium'', ''room'']), Some ''deluxe''),
       (bw (phrase [''basic'', ''room'']), Some ''standard''),
       (bw (phrase [''regular'', ''room'']), Some ''standard'')]),
    (''number'',
      [(bw (Plus (Cls Digit)), None),
       (bw (words [''one'', ''two'', ''three'', ''four'', ''five'', ''six'', ''seven'',
                   ''eight'', ''nine'', ''ten'']), None)]),
    (''date'',
      [(bw (words [''today'', ''tomorrow'', ''tonight'']), None),
       (bw (seqs [Rep (Cls Digit) 1 2, Cls (Chars ''/-''), Rep (Cls Digit) 1 2,
                  Cls (Chars ''/-''), Rep (Cls Digit) 2 4]), None)]),
    (''booking_source'',
      [(bw (words [''booking.com'', ''airbnb'', ''expedia'', ''ota'', ''online'']),
        Some ''ota''),
       (bw (words [''direct'', ''directly'', ''website'']), Some ''direct'')])]"

section \<open>The classifier\<close>

text \<open>
  The scoring loop of \<open>_recognize_intent\<close>. The division \<open>score / len(patterns)\<close> is
  the one operation of the loop that can raise.
\<close>

definition pattern_score :: "regex list \<Rightarrow> string \<Rightarrow> nat" where
  "pattern_score patterns text = length (filter (\<lambda>pattern. re_search pattern text) patterns)"

fun score_intents :: "(Intent \<times> regex list) list \<Rightarrow> string \<Rightarrow> py_error + (Intent \<times> rat) list"
  where
  "score_intents [] text = Inr []"
| "score_intents ((i, patterns) # rest) text =
     (let score = pattern_score patterns text in
      if 0 < score then
        (if length patterns = 0 then Inl ZeroDivisionError
         else case score_intents rest text of
                Inl e \<Rightarrow> Inl e
              | Inr scores \<Rightarrow>
                  Inr ((i, min (of_nat score / of_nat (length patterns)) 1) # scores))
      else score_intents rest text)"

text \<open>
  \<open>max(intent_scores, key=intent_scores.get)\<close>: the first key, in iteration order,
  whose value no other key exceeds; on an empty dictionary \<open>max\<close> raises.
\<close>

fun max_from :: "Intent \<times> rat \<Rightarrow> (Intent \<times> rat) list \<Rightarrow> Intent \<times> rat" where
  "max_from best [] = best"
| "max_from best (kv # rest) = (if snd best < snd kv then max_from kv rest else max_from best rest)"

definition max_key :: "(Intent \<times> rat) list \<Rightarrow> py_error + Intent \<times> rat" where
  "max_key scores = (case scores of [] \<Rightarrow> Inl ValueError | kv # rest \<Rightarrow> Inr (max_from kv rest))"

definition recognize_intent :: "string \<Rightarrow> py_error + Intent \<times> rat" where
  "recognize_intent text =
     (case score_intents intent_patterns text of
        Inl e \<Rightarrow> Inl e
      | Inr intent_scores \<Rightarrow>
          if intent_scores = [] then Inr (UNKNOWN, 0) else max_key intent_scores)"

text \<open>\<open>_extract_entities\<close>: types in table order, patterns in table order, matches from left to right.\<close>

definition entity_value :: "string option \<Rightarrow> string \<Rightarrow> string" where
  "entity_value default_value group0 =
     (case default_value of
        None \<Rightarrow> group0
      | Some v \<Rightarrow> if v = [] then group0 else v)"

definition pattern_entities :: "string \<Rightarrow> string \<Rightarrow> regex \<times> string option \<Rightarrow> Entity list" where
  "pattern_entities text entity_type pd =
     map (\<lambda>m. \<lparr>ent_type = entity_type,
               ent_value = entity_value (snd pd) (snd m),
               ent_confidence = 9 / 10\<rparr>)
         (finditer (fst pd) text)"

definition extract_entities :: "string \<Rightarrow> Entity list" where
  "extract_entities text =
     concat (map (\<lambda>tp. concat (map (pattern_entities text (fst tp)) (snd tp))) entity_patterns)"

definition process :: "string \<Rightarrow> py_error + NLUResult" where
  "process text =
     (let text_lower = strip (lower text) in
      case recognize_intent text_lower of
        Inl e \<Rightarrow> Inl e
      | Inr (i, intent_confidence) \<Rightarrow>
          Inr \<lparr>intent = i, confidence = intent_confidence,
               entities = extract_entities text_lower, original_text = text\<rparr>)"

section \<open>Notions used to state the properties of the classifier\<close>

text \<open>The fraction of the patterns of one intent that match a text.\<close>

definition fraction :: "regex list \<Rightarrow> string \<Rightarrow> rat" where
  "fraction ps t = of_nat (pattern_score ps t) / of_nat (length ps)"

text \<open>The members of the \<open>Intent\<close> enumeration in the order in which the class declares them.\<close>

definition Intent_members :: "Intent list" where
  "Intent_members =
     [QUERY_ROOMS, QUERY_PRICES, CHECK_AVAILABILITY, COMPARE_RATES, BOOK_ROOM, GREETING,
      GOODBYE, HELP, UNKNOWN]"

definition declared_before :: "Intent \<Rightarrow> Intent \<Rightarrow> bool" where
  "declared_before a b =
     (length (takeWhile (\<lambda>x. x \<noteq> a) Intent_members)
        < length (takeWhile (\<lambda>x. x \<noteq> b) Intent_members))"

text \<open>
  The loops of \<open>_extract_entities\<close> once more, each entity now paired with where it
  comes from: the index of its entity type in the table, the index of its pattern in the
  list of that type, and the offset in the text at which the match starts.
\<close>

definition pattern_trace ::
  "string \<Rightarrow> string \<Rightarrow> nat \<times> (regex \<times> string option) \<Rightarrow> ((nat \<times> nat) \<times> Entity) list" where
  "pattern_trace text entity_type ipd =
     map (\<lambda>m. ((fst ipd, fst m),
               \<lparr>ent_type = entity_type,
                ent_value = entity_value (snd (snd ipd)) (snd m),
                ent_confidence = 9 / 10\<rparr>))
         (finditer (fst (snd ipd)) text)"

definition type_trace ::
  "string \<Rightarrow> nat \<times> (string \<times> (regex \<times> string option) list)
     \<Rightarrow> ((nat \<times> nat \<times> nat) \<times> Entity) list" where
  "type_trace text itp =
     map (\<lambda>ke. ((fst itp, fst ke), snd ke))
         (concat (map (pattern_trace text (fst (snd itp))) (enumerate 0 (snd (snd itp)))))"

definition entity_trace :: "string \<Rightarrow> ((nat \<times> nat \<times> nat) \<times> Entity) list" where
  "entity_trace text = concat (map (type_trace text) (enumerate 0 entity_patterns))"

definition match_offset :: "(nat \<times> nat \<times> nat) \<times> Entity \<Rightarrow> nat" where
  "match_offset ke = snd (snd (fst ke))"

section \<open>Numbers as text\<close>

text \<open>
  Prices are Python floats; the model keeps their values exact, as rationals, and
  subtracts them exactly. This is the program's arithmetic on prices such as the seeded
  ones, whole amounts on which floating-point subtraction does not round.
\<close>

definition NL :: string where
  "NL = [CHR 0x0A]"

definition digit_char :: "int \<Rightarrow> char" where
  "digit_char d = ''0123456789'' ! nat d"

text \<open>The decimal digits of an integer that is not negative: \<open>str(n)\<close>.\<close>

function decimal :: "int \<Rightarrow> string" where
  "decimal n = (if n < 10 then [digit_char n] else decimal (n div 10) @ [digit_char (n mod 10)])"
  by pat_completeness auto
termination
  by (relation "measure nat") auto

declare decimal.simps [simp del]

definition str_int :: "int \<Rightarrow> string" where
  "str_int i = (if i < 0 then ''-'' @ decimal (- i) else decimal i)"

text \<open>Rounding to the nearest integer, ties to the even one: \<open>round\<close> and the \<open>.0f\<close> format.\<close>

definition round_half_even :: "rat \<Rightarrow> int" where
  "round_half_even x =
     (let f = \<lfloor>x\<rfloor>; d = x - of_int f in
      if d < 1 / 2 then f
      else if 1 / 2 < d then f + 1
      else if even f then f else f + 1)"

text \<open>
  The \<open>,\<close> option of the format: working from the right, a comma after every third digit
  that has a digit to its left.
\<close>

fun group_rev :: "string \<Rightarrow> string" where
  "group_rev (a # b # c # d # rest) = a # b # c # CHR '','' # group_rev (d # rest)"
| "group_rev [a, b, c] = [a, b, c]"
| "group_rev [a, b] = [a, b]"
| "group_rev [a] = [a]"
| "group_rev [] = []"

definition group_thousands :: "string \<Rightarrow> string" where
  "group_thousands ds = rev (group_rev (rev ds))"

text \<open>\<open>'{:,.0f}'.format(x)\<close>; a negative \<open>x\<close> keeps its sign even when it rounds to zero.\<close>

definition format_comma_0f :: "rat \<Rightarrow> string" where
  "format_comma_0f x =
     (if x < 0 then ''-'' else []) @ group_thousands (decimal (round_half_even \<bar>x\<bar>))"

section \<open>Configuration\<close>

text \<open>
  \<open>BusinessConfig\<close>: the two settings the generator reads. The currency symbol is taken
  from the environment, with the rupee sign as default.
\<close>

record config =
  direct_discount_percentage :: int
  currency_symbol :: string

text \<open>The rupee sign, in UTF-8.\<close>

definition rupee :: string where
  "rupee = [CHR 0xE2, CHR 0x82, CHR 0xB9]"

definition default_config :: config where
  "default_config = \<lparr>direct_discount_percentage = 15, currency_symbol = rupee\<rparr>"

text \<open>
  \<open>_format_price\<close>: the \<open>price_format\<close> of \<open>_initialize_business_rules\<close> is the
  symbol followed by \<open>{:,.0f}\<close>, and \<open>str.format\<close> reads the whole of it. In the symbol
  \<open>{{\<close> and \<open>}}\<close> stand for one brace. Any other brace makes the call raise: a lone
  \<open>}\<close> or an unfinished field is a \<open>ValueError\<close>; a field in the symbol takes the price
  or names an argument that is not there, after which the numbering of the final field
  fails (\<open>IndexError\<close>, \<open>ValueError\<close> or \<open>KeyError\<close>). The model records that the call
  raises, as \<open>FormatError\<close>.
\<close>

fun symbol_text :: "string \<Rightarrow> py_error + string" where
  "symbol_text [] = Inr []"
| "symbol_text [c] = (if c = CHR ''{'' \<or> c = CHR ''}'' then Inl FormatError else Inr [c])"
| "symbol_text (c # d # rest) =
     (if c = CHR ''{'' \<or> c = CHR ''}'' then
        (if d = c then map_sum id ((#) c) (symbol_text rest) else Inl FormatError)
      else map_sum id ((#) c) (symbol_text (d # rest)))"

definition format_price :: "config \<Rightarrow> rat \<Rightarrow> py_error + string" where
  "format_price cfg price =
     (case symbol_text (currency_symbol cfg) of
        Inl e \<Rightarrow> Inl e
      | Inr symbol \<Rightarrow> Inr (symbol @ format_comma_0f price))"

text \<open>
  The pieces of an f-string are evaluated from left to right, and the first one that
  raises ends the evaluation.
\<close>

fun all_of :: "(py_error + 'a) list \<Rightarrow> py_error + 'a list" where
  "all_of [] = Inr []"
| "all_of (p # ps) =
     (case p of
        Inl e \<Rightarrow> Inl e
      | Inr x \<Rightarrow> (case all_of ps of Inl e \<Rightarrow> Inl e | Inr xs \<Rightarrow> Inr (x # xs)))"

definition cat :: "(py_error + string) list \<Rightarrow> py_error + string" where
  "cat pieces = map_sum id concat (all_of pieces)"

section \<open>The store\<close>

text \<open>
  The tables \<open>rooms\<close> and \<open>faqs\<close> of the database, each as the list of its rows in
  \<open>id\<close> order, and the two queries the pipeline runs on them.
\<close>

record room_row =
  row_id :: int
  row_name :: string
  row_room_type :: string
  row_rack_rate :: rat
  row_direct_rate :: rat
  row_inventory :: int
  row_description :: string
  row_amenities :: string
  row_max_occupancy :: int

record FAQ =
  question :: string
  answer :: string
  category :: string

record faq_row = FAQ +
  priority :: int

record store =
  rooms_table :: "room_row list"
  faqs_table :: "faq_row list"

text \<open>The dictionary that \<open>get_rooms\<close> builds for one row.\<close>

record Room =
  room_id :: int
  name :: string
  room_type :: string
  rack_rate :: rat
  direct_rate :: rat
  inventory :: int
  description :: string
  amenities :: string
  max_occupancy :: int
  savings :: rat
  discount_percentage :: int

text \<open>The division by \<open>rack_rate\<close> raises when the rate is zero.\<close>

definition room_of_row :: "room_row \<Rightarrow> py_error + Room" where
  "room_of_row room =
     (if row_rack_rate room = 0 then Inl ZeroDivisionError
      else Inr \<lparr>room_id = row_id room, name = row_name room, room_type = row_room_type room,
                rack_rate = row_rack_rate room, direct_rate = row_direct_rate room,
                inventory = row_inventory room, description = row_description room,
                amenities = row_amenities room, max_occupancy = row_max_occupancy room,
                savings = row_rack_rate room - row_direct_rate room,
                discount_percentage =
                  round_half_even
                    ((row_rack_rate room - row_direct_rate room) / row_rack_rate room * 100)\<rparr>)"

fun rooms_list :: "room_row list \<Rightarrow> py_error + Room list" where
  "rooms_list [] = Inr []"
| "rooms_list (room # rest) =
     (case room_of_row room of
        Inl e \<Rightarrow> Inl e
      | Inr r \<Rightarrow> (case rooms_list rest of Inl e \<Rightarrow> Inl e | Inr rs \<Rightarrow> Inr (r # rs)))"

text \<open>
  \<open>get_rooms(available_only)\<close>: \<open>WHERE inventory > 0\<close> when asked for, \<open>ORDER BY
  rack_rate\<close> (rows of equal rate stay in \<open>id\<close> order).
\<close>

definition get_rooms :: "store \<Rightarrow> bool \<Rightarrow> py_error + Room list" where
  "get_rooms db available_only =
     rooms_list
       (sort_key row_rack_rate
          (filter (\<lambda>room. available_only \<longrightarrow> 0 < row_inventory room) (rooms_table db)))"

text \<open>
  SQLite's \<open>LIKE\<close>: in the pattern \<open>%\<close> stands for any run of characters and \<open>_\<close>
  for any one character; any other character stands for itself, ignoring the case of
  ASCII letters.
\<close>

fun like_match :: "string \<Rightarrow> string \<Rightarrow> bool" where
  "like_match [] t = (t = [])"
| "like_match (p # ps) [] = (p = CHR ''%'' \<and> like_match ps [])"
| "like_match (p # ps) (c # cs) =
     (if p = CHR ''%'' then like_match ps (c # cs) \<or> like_match (p # ps) cs
      else (p = CHR ''_'' \<or> lower_char p = lower_char c) \<and> like_match ps cs)"

text \<open>
  \<open>search_faqs\<close>: \<open>question LIKE ? OR answer LIKE ?\<close> with the pattern
  \<open>f"%{search_term}%"\<close>, \<open>ORDER BY priority DESC LIMIT 5\<close>.
\<close>

definition search_faqs :: "store \<Rightarrow> string \<Rightarrow> FAQ list" where
  "search_faqs db search_term =
     (let search_pattern = ''%'' @ search_term @ ''%'' in
      map (\<lambda>faq. \<lparr>question = question faq, answer = answer faq, category = category faq\<rparr>)
        (take 5
           (sort_key (\<lambda>faq. - priority faq)
              (filter (\<lambda>faq. like_match search_pattern (question faq)
                             \<or> like_match search_pattern (answer faq))
                 (faqs_table db)))))"

section \<open>The response generator\<close>

record ResponseContext =
  ctx_intent :: Intent
  ctx_entities :: "Entity list"
  user_query :: string
  room_data :: "Room list option"

text \<open>
  The characters of the response texts that are not ASCII, as the bytes the source file
  holds for them.
\<close>

definition glyph_bulb :: string where
  "glyph_bulb = [CHR 0xC3, CHR 0xB0, CHR 0xC5, CHR 0xB8, CHR 0xE2, CHR 0x80, CHR 0x99, CHR 0xC2, CHR 0xA1]"

definition glyph_bullet :: string where
  "glyph_bullet = [CHR 0xC3, CHR 0xA2, CHR 0xE2, CHR 0x82, CHR 0xAC, CHR 0xC2, CHR 0xA2]"

definition glyph_check :: string where
  "glyph_check = [CHR 0xC3, CHR 0xA2, CHR 0xC5, CHR 0x93, CHR 0xE2, CHR 0x80, CHR 0xA6]"

definition glyph_hands :: string where
  "glyph_hands = [CHR 0xC3, CHR 0xB0, CHR 0xC5, CHR 0xB8, CHR 0xE2, CHR 0x84, CHR 0xA2, CHR 0xC5, CHR 0x92]"

definition glyph_hotel :: string where
  "glyph_hotel = [CHR 0xC3, CHR 0xB0, CHR 0xC5, CHR 0xB8, CHR 0xC2, CHR 0xA8]"

definition glyph_label :: string where
  "glyph_label = [CHR 0xC3, CHR 0xB0, CHR 0xC5, CHR 0xB8, CHR 0xC2, CHR 0xB7, CHR 0xC3, CHR 0xAF, CHR 0xC2, CHR 0xB8]"

definition glyph_laptop :: string where
  "glyph_laptop = [CHR 0xC3, CHR 0xB0, CHR 0xC5, CHR 0xB8, CHR 0xE2, CHR 0x80, CHR 0x99, CHR 0xC2, CHR 0xBB]"

definition glyph_money :: string where
  "glyph_money = [CHR 0xC3, CHR 0xB0, CHR 0xC5, CHR 0xB8, CHR 0xE2, CHR 0x80, CHR 0x99, CHR 0xC2, CHR 0xB0]"

definition glyph_party :: string where
  "glyph_party = [CHR 0xC3, CHR 0xB0, CHR 0xC5, CHR 0xB8, CHR 0xC5, CHR 0xBD, CHR 0xE2, CHR 0x80, CHR 0xB0]"

definition glyph_phone :: string where
  "glyph_phone = [CHR 0xC3, CHR 0xB0, CHR 0xC5, CHR 0xB8, CHR 0xE2, CHR 0x80, CHR 0x9C, CHR 0xC5, CHR 0xBE]"

definition glyph_sparkles :: string where
  "glyph_sparkles = [CHR 0xC3, CHR 0xA2, CHR 0xC5, CHR 0x93, CHR 0xC2, CHR 0xA8]"

definition glyph_target :: string where
  "glyph_target = [CHR 0xC3, CHR 0xB0, CHR 0xC5, CHR 0xB8, CHR 0xC5, CHR 0xBD, CHR 0xC2, CHR 0xAF]"

definition glyph_wave :: string where
  "glyph_wave = [CHR 0xC3, CHR 0xB0, CHR 0xC5, CHR 0xB8, CHR 0xE2, CHR 0x80, CHR 0x98, CHR 0xE2, CHR 0x80, CHR 0xB9]"

text \<open>\<open>_initialize_templates\<close>\<close>

definition templates :: "(Intent \<times> string list) list" where
  "templates =
     [(GREETING,
        [concat
          [''Hi there! '', glyph_wave,
           '' I'm your booking assistant. I can show you rooms, prices, and help you save 15% by booking direct. What are you looking for?''],
         concat
          [''Hello! '', glyph_hotel,
           '' Ready to find your perfect room at the best price? Ask me about our rooms, rates, or availability!'']]),
      (GOODBYE,
        [concat
          [''Thanks for chatting! '', glyph_hands,
           '' Remember, book direct to save 15%. Have a wonderful day!''],
         concat
          [''Goodbye! '', glyph_wave,
           '' Don't forget - direct bookings always get the best price. See you soon!'']]),
      (HELP,
        [concat
          [''I can help you with:'', NL, glyph_bullet, '' View rooms & amenities'', NL,
           glyph_bullet, '' Check prices & compare rates'', NL, glyph_bullet,
           '' Book rooms directly'', NL, glyph_bullet, '' Answer FAQs'', NL, NL,
           ''What would you like to know?'']])]"

text \<open>\<open>self.templates[key][0]\<close>\<close>

definition first_template :: "Intent \<Rightarrow> py_error + string" where
  "first_template key =
     (case map_of templates key of
        None \<Rightarrow> Inl KeyError
      | Some [] \<Rightarrow> Inl IndexError
      | Some (t # _) \<Rightarrow> Inr t)"

text \<open>
  A result of the generator is its text together with the context as the call leaves it:
  the handlers assign to \<open>context.room_data\<close>.
\<close>

type_synonym response = "py_error + string \<times> ResponseContext"

text \<open>The value of \<open>context.room_data\<close> read as a list; \<open>None\<close> and \<open>[]\<close> are both falsy.\<close>

definition rooms_of :: "ResponseContext \<Rightarrow> Room list" where
  "rooms_of context = (case room_data context of None \<Rightarrow> [] | Some rooms \<Rightarrow> rooms)"

text \<open>\<open>if not context.room_data: context.room_data = get_rooms()\<close>\<close>

definition ensure_room_data :: "store \<Rightarrow> ResponseContext \<Rightarrow> py_error + ResponseContext" where
  "ensure_room_data db context =
     (if rooms_of context = [] then
        (case get_rooms db True of
           Inl e \<Rightarrow> Inl e
         | Inr rooms \<Rightarrow> Inr (context\<lparr>room_data := Some rooms\<rparr>))
      else Inr context)"

text \<open>\<open>[e for e in context.entities if e['type'] == 'room_type']\<close>\<close>

definition room_type_entities :: "ResponseContext \<Rightarrow> Entity list" where
  "room_type_entities context = filter (\<lambda>e. ent_type e = ''room_type'') (ctx_entities context)"

text \<open>\<open>[r for r in rooms if room_type.lower() in r['name'].lower()]\<close>\<close>

definition matching_rooms :: "string \<Rightarrow> Room list \<Rightarrow> Room list" where
  "matching_rooms rt rooms = filter (\<lambda>r. contains (lower (name r)) (lower rt)) rooms"

definition handle_greeting :: "ResponseContext \<Rightarrow> response" where
  "handle_greeting context =
     (case first_template GREETING of Inl e \<Rightarrow> Inl e | Inr t \<Rightarrow> Inr (t, context))"

definition handle_goodbye :: "ResponseContext \<Rightarrow> response" where
  "handle_goodbye context =
     (case first_template GOODBYE of Inl e \<Rightarrow> Inl e | Inr t \<Rightarrow> Inr (t, context))"

text \<open>The keyword table of \<open>_handle_help\<close>, in the order written.\<close>

definition faq_keywords :: "(string \<times> string list) list" where
  "faq_keywords =
     [(''check-in'', [''check-in'', ''check in'', ''checkin'', ''check out'', ''checkout'',
                      ''time'', ''hour'']),
      (''WiFi'', [''wifi'', ''internet'', ''wi-fi'', ''password'', ''network'']),
      (''cancellation'', [''cancel'', ''cancellation'', ''refund'']),
      (''parking'', [''parking'', ''park'', ''vehicle'', ''car'']),
      (''breakfast'', [''breakfast'', ''food'', ''meal'', ''dining'']),
      (''payment'', [''payment'', ''pay'', ''credit'', ''cash'', ''card'']),
      (''pets'', [''pet'', ''pets'', ''dog'', ''cat'', ''animal'']),
      (''airport'', [''airport'', ''pickup'', ''transport'', ''shuttle''])]"

text \<open>
  The search loop of \<open>_handle_help\<close>: the first category with a keyword in the query
  whose search finds something ends the loop.
\<close>

fun find_faqs :: "store \<Rightarrow> string \<Rightarrow> (string \<times> string list) list \<Rightarrow> FAQ list" where
  "find_faqs db query_lower [] = []"
| "find_faqs db query_lower ((search_term, keywords) # rest) =
     (if list_ex (\<lambda>keyword. contains query_lower keyword) keywords then
        (let faqs = search_faqs db search_term in
         if faqs \<noteq> [] then faqs else find_faqs db query_lower rest)
      else find_faqs db query_lower rest)"

definition handle_help :: "store \<Rightarrow> ResponseContext \<Rightarrow> response" where
  "handle_help db context =
     (case find_faqs db (lower (user_query context)) faq_keywords of
        faq # _ \<Rightarrow>
          Inr (concat
                [''**'', question faq, ''**'', NL, NL, answer faq, NL, NL,
                 ''Need help with something else?''],
               context)
      | [] \<Rightarrow> (case first_template HELP of Inl e \<Rightarrow> Inl e | Inr t \<Rightarrow> Inr (t, context)))"

text \<open>A handler returns the text it has built, unless building it raised.\<close>

definition reply_with :: "py_error + string \<Rightarrow> ResponseContext \<Rightarrow> response" where
  "reply_with body context = (case body of Inl e \<Rightarrow> Inl e | Inr t \<Rightarrow> Inr (t, context))"

text \<open>The texts of \<open>_handle_room_query\<close>.\<close>

definition no_rooms_text :: string where
  "no_rooms_text =
     concat
        [''I apologize, but we don't have any rooms available at the moment. Please check back later.'']"

definition single_room_text :: "config \<Rightarrow> Room \<Rightarrow> py_error + string" where
  "single_room_text cfg room =
     cat
        [Inr ''Great choice! Our **'', Inr (name room), Inr ''** is available ('',
         Inr (str_int (inventory room)), Inr '' rooms left).'', Inr NL, Inr NL,
         Inr glyph_money, Inr '' **Pricing:** OTA sites charge '',
         format_price cfg (rack_rate room), Inr ''/night, '',
         Inr ''but book direct for just '', format_price cfg (direct_rate room),
         Inr '' - save '', format_price cfg (rack_rate room - direct_rate room), Inr ''!'',
         Inr NL, Inr NL, Inr ''Ready to book?'']"

definition room_line :: "config \<Rightarrow> Room \<Rightarrow> py_error + string" where
  "room_line cfg room =
     cat
        [Inr ''**'', Inr (name room), Inr ''** - '', format_price cfg (direct_rate room),
         Inr ''/night '', Inr ''(save '',
         format_price cfg (rack_rate room - direct_rate room), Inr ''!) '', Inr glyph_bullet,
         Inr '' '', Inr (str_int (inventory room)), Inr '' available'', Inr NL]"

definition room_comparison_text :: "config \<Rightarrow> Room list \<Rightarrow> py_error + string" where
  "room_comparison_text cfg rooms =
     cat
        [Inr ''We have '', Inr (decimal (int (length rooms))),
         Inr '' room types available:'', Inr NL, Inr NL, cat (map (room_line cfg) rooms),
         Inr NL, Inr glyph_sparkles,
         Inr '' *All prices are 15% off OTA rates when you book direct!*'']"

text \<open>
  \<open>_handle_room_query\<close>. The emptiness test comes before the filter, and the filtered
  list is stored back into the context.
\<close>

definition handle_room_query :: "config \<Rightarrow> store \<Rightarrow> ResponseContext \<Rightarrow> response" where
  "handle_room_query cfg db context =
     (case ensure_room_data db context of
        Inl e \<Rightarrow> Inl e
      | Inr context1 \<Rightarrow>
          if rooms_of context1 = [] then Inr (no_rooms_text, context1)
          else
            (let context2 =
                   (case room_type_entities context1 of
                      [] \<Rightarrow> context1
                    | e # _ \<Rightarrow>
                        context1\<lparr>room_data :=
                                    Some (matching_rooms (ent_value e) (rooms_of context1))\<rparr>)
             in case rooms_of context2 of
                  [room] \<Rightarrow> reply_with (single_room_text cfg room) context2
                | rooms \<Rightarrow> reply_with (room_comparison_text cfg rooms) context2))"

text \<open>\<open>_handle_price_query\<close>\<close>

definition room_pricing_text :: "config \<Rightarrow> Room \<Rightarrow> py_error + string" where
  "room_pricing_text cfg room =
     cat
        [Inr ''**'', Inr (name room), Inr '' Pricing:**'', Inr NL, Inr NL, Inr glyph_label,
         Inr '' OTA Platforms: '', format_price cfg (rack_rate room), Inr NL,
         Inr glyph_sparkles, Inr '' Direct Booking: '', format_price cfg (direct_rate room),
         Inr NL, Inr NL, Inr glyph_money, Inr '' **You save '',
         format_price cfg (rack_rate room - direct_rate room),
         Inr ''** by booking directly!'', Inr NL, Inr NL, Inr ''That's a '',
         Inr (str_int (direct_discount_percentage cfg)),
         Inr ''% discount compared to Booking.com, Expedia, etc.'']"

definition price_line :: "config \<Rightarrow> Room \<Rightarrow> py_error + string" where
  "price_line cfg room =
     cat
        [Inr glyph_bullet, Inr '' **'', Inr (name room), Inr '':** '',
         format_price cfg (direct_rate room), Inr ''/night '', Inr ''*(save '',
         format_price cfg (rack_rate room - direct_rate room), Inr '')*'', Inr NL]"

definition price_list_text :: "config \<Rightarrow> Room list \<Rightarrow> py_error + string" where
  "price_list_text cfg rooms =
     cat
        [Inr ''**Direct Booking Prices** (15% off OTA rates):'', Inr NL, Inr NL,
         cat (map (price_line cfg) rooms), Inr NL, Inr glyph_bulb,
         Inr '' These are direct booking prices - all 15% cheaper than Booking.com/MakeMyTrip!'']"

definition handle_price_query :: "config \<Rightarrow> store \<Rightarrow> ResponseContext \<Rightarrow> response" where
  "handle_price_query cfg db context =
     (case ensure_room_data db context of
        Inl e \<Rightarrow> Inl e
      | Inr context1 \<Rightarrow>
          (case room_type_entities context1 of
             [] \<Rightarrow> reply_with (price_list_text cfg (rooms_of context1)) context1
           | e # _ \<Rightarrow>
               (case matching_rooms (ent_value e) (rooms_of context1) of
                  [] \<Rightarrow> reply_with (price_list_text cfg (rooms_of context1)) context1
                | room # _ \<Rightarrow> reply_with (room_pricing_text cfg room) context1)))"

text \<open>\<open>_handle_availability\<close>\<close>

definition room_available_text :: "config \<Rightarrow> Room \<Rightarrow> py_error + string" where
  "room_available_text cfg room =
     cat
        [Inr ''Yes! We have **'', Inr (str_int (inventory room)), Inr '' '', Inr (name room),
         Inr ''(s)** available.'', Inr NL, Inr NL, Inr ''Direct booking rate: '',
         format_price cfg (direct_rate room), Inr NL, Inr ''(Save '',
         format_price cfg (savings room), Inr '' vs OTA platforms)'', Inr NL, Inr NL,
         Inr ''Would you like to proceed with booking?'']"

definition sold_out_text :: "Room \<Rightarrow> string" where
  "sold_out_text room =
     concat
        [''Sorry, '', name room, '' is currently sold out. Can I suggest another room type?'']"

definition available_line :: "config \<Rightarrow> Room \<Rightarrow> py_error + string" where
  "available_line cfg room =
     cat
        [Inr ''- '', Inr (name room), Inr '': '', Inr (str_int (inventory room)),
         Inr '' rooms at '', format_price cfg (direct_rate room), Inr NL]"

definition availability_list_text :: "config \<Rightarrow> Room list \<Rightarrow> py_error + string" where
  "availability_list_text cfg available =
     cat
        [Inr ''We have '', Inr (decimal (int (length available))),
         Inr '' room types available:'', Inr NL, Inr NL,
         cat (map (available_line cfg) available), Inr NL, Inr glyph_bulb,
         Inr '' Book directly to save 15%!'']"

definition fully_booked_text :: string where
  "fully_booked_text =
     concat
        [''Unfortunately, we're fully booked at the moment. Would you like me to check alternative dates?'']"

definition general_availability :: "config \<Rightarrow> ResponseContext \<Rightarrow> py_error + string" where
  "general_availability cfg context =
     (let available = filter (\<lambda>r. 0 < inventory r) (rooms_of context) in
      if available \<noteq> [] then availability_list_text cfg available
      else Inr fully_booked_text)"

definition handle_availability :: "config \<Rightarrow> store \<Rightarrow> ResponseContext \<Rightarrow> response" where
  "handle_availability cfg db context =
     (case ensure_room_data db context of
        Inl e \<Rightarrow> Inl e
      | Inr context1 \<Rightarrow>
          (case room_type_entities context1 of
             [] \<Rightarrow> reply_with (general_availability cfg context1) context1
           | e # _ \<Rightarrow>
               (case matching_rooms (ent_value e) (rooms_of context1) of
                  [] \<Rightarrow> reply_with (general_availability cfg context1) context1
                | room # _ \<Rightarrow>
                    if 0 < inventory room then reply_with (room_available_text cfg room) context1
                    else Inr (sold_out_text room, context1))))"

text \<open>\<open>_handle_rate_comparison\<close>; the totals it computes do not reach the text.\<close>

definition comparison_block :: "config \<Rightarrow> Room \<Rightarrow> py_error + string" where
  "comparison_block cfg room =
     cat
        [Inr ''**'', Inr (name room), Inr '':**'', Inr NL, Inr ''- Booking.com/Expedia: '',
         format_price cfg (rack_rate room), Inr NL, Inr ''- Our Direct Rate: '',
         format_price cfg (direct_rate room), Inr NL, Inr ''- Your Savings: '',
         format_price cfg (rack_rate room - direct_rate room), Inr NL, Inr NL]"

definition rate_comparison_text :: "config \<Rightarrow> Room list \<Rightarrow> py_error + string" where
  "rate_comparison_text cfg rooms =
     cat
        [Inr ''**Direct Booking vs OTA Platforms:**'', Inr NL, Inr NL,
         Inr ''Here's how much you save by booking directly:'', Inr NL, Inr NL,
         cat (map (comparison_block cfg) rooms), Inr glyph_target,
         Inr '' **Bottom Line:** By booking directly, you avoid OTA commissions '',
         Inr ''and get '', Inr (str_int (direct_discount_percentage cfg)), Inr ''% off!'',
         Inr NL, Inr NL, Inr ''No hidden fees. No middleman. Just better prices.'']"

definition handle_rate_comparison :: "config \<Rightarrow> store \<Rightarrow> ResponseContext \<Rightarrow> response" where
  "handle_rate_comparison cfg db context =
     (case ensure_room_data db context of
        Inl e \<Rightarrow> Inl e
      | Inr context1 \<Rightarrow> reply_with (rate_comparison_text cfg (rooms_of context1)) context1)"

text \<open>\<open>_handle_booking\<close>\<close>

definition booking_text :: "config \<Rightarrow> Room \<Rightarrow> py_error + string" where
  "booking_text cfg room =
     cat
        [Inr ''Perfect! Let me help you book the **'', Inr (name room), Inr ''**.'', Inr NL,
         Inr NL, Inr glyph_phone, Inr '' **Call us at: +91-XXXX-XXXX** (24/7 booking line)'',
         Inr NL, Inr glyph_laptop,
         Inr '' **Or book online at: www.simplotel.com/direct-booking**'', Inr NL, Inr NL,
         Inr glyph_money, Inr '' **Your Price:** '', format_price cfg (direct_rate room),
         Inr ''/night (save '', format_price cfg (rack_rate room - direct_rate room),
         Inr ''!)'', Inr NL, Inr glyph_check,
         Inr '' **Mention code:** DIRECT15 to confirm your discount'', Inr NL, Inr NL,
         Inr ''Ready to book now? Just call or visit our website!'']"

definition booking_line :: "config \<Rightarrow> Room \<Rightarrow> py_error + string" where
  "booking_line cfg r =
     cat
        [Inr glyph_bullet, Inr '' **'', Inr (name r), Inr ''** - '',
         format_price cfg (direct_rate r), Inr ''/night ('', Inr (str_int (inventory r)),
         Inr '' available)'']"

text \<open>\<open>"\n".join(lines)\<close>\<close>

fun join_lines :: "string list \<Rightarrow> string" where
  "join_lines [] = []"
| "join_lines [l] = l"
| "join_lines (l # ls) = l @ NL @ join_lines ls"

definition booking_options_text :: "config \<Rightarrow> Room list \<Rightarrow> py_error + string" where
  "booking_options_text cfg rooms =
     cat
        [Inr ''Absolutely! I'd be happy to help you book directly and save 15%! '',
         Inr glyph_party, Inr NL, Inr NL, Inr ''**Available rooms:**'', Inr NL,
         map_sum id join_lines (all_of (map (booking_line cfg) rooms)), Inr NL, Inr NL,
         Inr glyph_phone,
         Inr '' **Book now:** Call +91-XXXX-XXXX or visit www.simplotel.com'', Inr NL,
         Inr glyph_money, Inr '' **Use code DIRECT15** for your 15% discount!'', Inr NL,
         Inr NL, Inr ''Which room type interests you?'']"

definition booking_options :: "config \<Rightarrow> store \<Rightarrow> ResponseContext \<Rightarrow> response" where
  "booking_options cfg db context =
     (case ensure_room_data db context of
        Inl e \<Rightarrow> Inl e
      | Inr context1 \<Rightarrow> reply_with (booking_options_text cfg (rooms_of context1)) context1)"

definition handle_booking :: "config \<Rightarrow> store \<Rightarrow> ResponseContext \<Rightarrow> response" where
  "handle_booking cfg db context =
     (case room_type_entities context of
        [] \<Rightarrow> booking_options cfg db context
      | e # _ \<Rightarrow>
          (case ensure_room_data db context of
             Inl err \<Rightarrow> Inl err
           | Inr context1 \<Rightarrow>
               (case matching_rooms (ent_value e) (rooms_of context1) of
                  [] \<Rightarrow> booking_options cfg db context1
                | room # _ \<Rightarrow> reply_with (booking_text cfg room) context1)))"

definition unknown_text :: string where
  "unknown_text =
     concat
        [''I'm not sure I understood that correctly. I can help you with:'', NL, NL,
         ''- Viewing available rooms and prices'', NL,
         ''- Comparing direct booking vs OTA rates'', NL, ''- Checking room availability'',
         NL, ''- Making reservations'', NL, NL, ''What would you like to know?'']"

definition handle_unknown :: "ResponseContext \<Rightarrow> response" where
  "handle_unknown context = Inr (unknown_text, context)"

text \<open>\<open>generate_response\<close>: the handler map, with \<open>_handle_unknown\<close> as default.\<close>

definition generate_response :: "config \<Rightarrow> store \<Rightarrow> ResponseContext \<Rightarrow> response" where
  "generate_response cfg db context =
     (case ctx_intent context of
        GREETING \<Rightarrow> handle_greeting context
      | GOODBYE \<Rightarrow> handle_goodbye context
      | HELP \<Rightarrow> handle_help db context
      | QUERY_ROOMS \<Rightarrow> handle_room_query cfg db context
      | QUERY_PRICES \<Rightarrow> handle_price_query cfg db context
      | CHECK_AVAILABILITY \<Rightarrow> handle_availability cfg db context
      | COMPARE_RATES \<Rightarrow> handle_rate_comparison cfg db context
      | BOOK_ROOM \<Rightarrow> handle_booking cfg db context
      | UNKNOWN \<Rightarrow> handle_unknown context)"


section \<open>The seeded store\<close>

text \<open>The rows that \<open>init_db\<close> inserts into empty tables.\<close>

definition seed_rooms :: "room_row list" where
  "seed_rooms =
     [\<lparr>row_id = 1, row_name = ''Deluxe Room'', row_room_type = ''deluxe'', row_rack_rate = 5000,
       row_direct_rate = 4250, row_inventory = 10,
       row_description = ''Spacious room with premium amenities'',
       row_amenities = ''WiFi, TV, AC, Mini-bar'', row_max_occupancy = 2\<rparr>,
      \<lparr>row_id = 2, row_name = ''Suite Room'', row_room_type = ''suite'', row_rack_rate = 8000,
       row_direct_rate = 6800, row_inventory = 5,
       row_description = ''Luxury suite with separate living area'',
       row_amenities = ''WiFi, TV, AC, Mini-bar, Bathtub, Balcony'', row_max_occupancy = 4\<rparr>,
      \<lparr>row_id = 3, row_name = ''Standard Room'', row_room_type = ''standard'', row_rack_rate = 3000,
       row_direct_rate = 2550, row_inventory = 15,
       row_description = ''Comfortable room with essential amenities'',
       row_amenities = ''WiFi, TV, AC'', row_max_occupancy = 2\<rparr>,
      \<lparr>row_id = 4, row_name = ''Executive Room'', row_room_type = ''executive'', row_rack_rate = 6500,
       row_direct_rate = 5525, row_inventory = 8,
       row_description = ''Business-class room with work desk'',
       row_amenities = ''WiFi, TV, AC, Mini-bar, Work Desk'', row_max_occupancy = 2\<rparr>]"

definition seed_faqs :: "faq_row list" where
  "seed_faqs =
     [\<lparr>question = ''What is the check-in time?'',
       answer = ''Check-in time is 2:00 PM and check-out is 12:00 PM.'',
       category = ''policies'', priority = 10\<rparr>,
      \<lparr>question = ''Do you offer airport pickup?'',
       answer = (''Yes, we offer complimentary airport pickup for suite bookings. For other rooms, it's available at '' @ rupee @ ''500.''),
       category = ''services'', priority = 8\<rparr>,
      \<lparr>question = ''Is WiFi free?'',
       answer = ''Yes, high-speed WiFi is complimentary for all guests.'',
       category = ''amenities'', priority = 9\<rparr>,
      \<lparr>question = ''What is your cancellation policy?'',
       answer = ''Free cancellation up to 24 hours before check-in. After that, one night's charge applies.'',
       category = ''policies'', priority = 10\<rparr>,
      \<lparr>question = ''Do you have parking facilities?'',
       answer = ''Yes, we have free parking for all guests.'',
       category = ''facilities'', priority = 7\<rparr>,
      \<lparr>question = ''Is breakfast included?'',
       answer = (''Breakfast is complimentary for direct bookings. OTA bookings can add breakfast for '' @ rupee @ ''300 per person.''),
       category = ''dining'', priority = 9\<rparr>,
      \<lparr>question = ''What payment methods do you accept?'',
       answer = ''We accept cash, credit/debit cards, UPI, and bank transfers.'',
       category = ''payments'', priority = 6\<rparr>,
      \<lparr>question = ''Are pets allowed?'',
       answer = (''Yes, we are pet-friendly. Additional charge of '' @ rupee @ ''500 per night applies.''),
       category = ''policies'', priority = 5\<rparr>]"

definition seed_store :: store where
  "seed_store = \<lparr>rooms_table = seed_rooms, faqs_table = seed_faqs\<rparr>"

section \<open>The orchestrator\<close>

text \<open>
  The language model is an external service. What the orchestrator sees of it is the
  outcome of a completion request: the call raises (network error, timeout, a response
  without choices), or it returns a message with an optional content and the names of the
  tools it asks for. A client is given by its outcomes for the first request and for the
  follow-up request after the tool call.
\<close>

datatype completion = Raises | Message (content: "string option") (tool_calls: "string list")

record client =
  first_completion :: completion
  second_completion :: completion

text \<open>A reply of the orchestrator is a Python string or \<open>None\<close>.\<close>

type_synonym reply = "py_error + string option"

definition reply_of :: "response \<Rightarrow> reply" where
  "reply_of r = (case r of Inl e \<Rightarrow> Inl e | Inr (t, _) \<Rightarrow> Inr (Some t))"

text \<open>\<open>_fallback_response\<close>\<close>

definition fallback_response ::
  "config \<Rightarrow> store \<Rightarrow> NLUResult \<Rightarrow> Entity list \<Rightarrow> Room list option \<Rightarrow> reply" where
  "fallback_response cfg db nlu_result ents rooms =
     reply_of
       (generate_response cfg db
          \<lparr>ctx_intent = intent nlu_result, ctx_entities = ents,
           user_query = original_text nlu_result, room_data = rooms\<rparr>)"

text \<open>
  \<open>_generate_ai_response\<close>. Every exception inside the \<open>try\<close> block leads to the
  fallback. The last line of the block falls back on an empty first content as well; the
  return after the tool call hands on the second content as it is.
\<close>

definition generate_ai_response ::
  "config \<Rightarrow> store \<Rightarrow> client \<Rightarrow> string \<Rightarrow> NLUResult \<Rightarrow> Room list option \<Rightarrow> Entity list \<Rightarrow> reply"
  where
  "generate_ai_response cfg db llm user_text nlu_result rooms ents =
     (let fallback = fallback_response cfg db nlu_result ents rooms in
      case first_completion llm of
        Raises \<Rightarrow> fallback
      | Message response_content calls \<Rightarrow>
          (let content_or_fallback =
                 (case response_content of
                    None \<Rightarrow> fallback
                  | Some c \<Rightarrow> if c = [] then fallback else Inr (Some c))
           in case calls of
                [] \<Rightarrow> content_or_fallback
              | tool_call # _ \<Rightarrow>
                  if tool_call = ''get_rooms'' then
                    (case get_rooms db True of
                       Inl e \<Rightarrow> fallback
                     | Inr rooms_data \<Rightarrow>
                         (case second_completion llm of
                            Raises \<Rightarrow> fallback
                          | Message final_content _ \<Rightarrow> Inr final_content))
                  else content_or_fallback))"

text \<open>
  \<open>get_agent_response\<close>. \<open>llm\<close> is the module's \<open>client\<close>, absent without an API
  key. Writing the query log cannot change the reply (\<open>log_query\<close> swallows its errors),
  so it is left out.
\<close>

definition get_agent_response ::
  "config \<Rightarrow> store \<Rightarrow> client option \<Rightarrow> string \<Rightarrow> bool option \<Rightarrow> reply" where
  "get_agent_response cfg db llm user_text use_ai =
     (case process user_text of
        Inl e \<Rightarrow> Inl e
      | Inr nlu_result \<Rightarrow>
          (case (if intent nlu_result
                      \<in> set [QUERY_ROOMS, QUERY_PRICES, CHECK_AVAILABILITY, COMPARE_RATES]
                 then map_sum id Some (get_rooms db True) else Inr None) of
             Inl e \<Rightarrow> Inl e
           | Inr rooms \<Rightarrow>
               (let ents = entities nlu_result;
                    should_use_ai = (case use_ai of None \<Rightarrow> False | Some b \<Rightarrow> b)
                in case llm of
                     Some c \<Rightarrow>
                       if should_use_ai
                       then generate_ai_response cfg db c user_text nlu_result rooms ents
                       else reply_of
                              (generate_response cfg db
                                 \<lparr>ctx_intent = intent nlu_result, ctx_entities = ents,
                                  user_query = user_text, room_data = rooms\<rparr>)
                   | None \<Rightarrow>
                       reply_of
                         (generate_response cfg db
                            \<lparr>ctx_intent = intent nlu_result, ctx_entities = ents,
                             user_query = user_text, room_data = rooms\<rparr>))))"

section \<open>Scenarios\<close>

text \<open>The seeded store after the last suite has been sold.\<close>

definition suite_sold_out_store :: store where
  "suite_sold_out_store =
     seed_store\<lparr>rooms_table :=
       map (\<lambda>room. if row_room_type room = ''suite'' then room\<lparr>row_inventory := 0\<rparr> else room)
           seed_rooms\<rparr>"

definition suite_entity :: Entity where
  "suite_entity = \<lparr>ent_type = ''room_type'', ent_value = ''suite'', ent_confidence = 9 / 10\<rparr>"

text \<open>A room query for the suite, as the orchestrator hands it on without room data.\<close>

definition suite_query :: ResponseContext where
  "suite_query =
     \<lparr>ctx_intent = QUERY_ROOMS, ctx_entities = [suite_entity],
      user_query = ''show me the suite room'', room_data = None\<rparr>"

text \<open>The dictionary of the seeded deluxe room.\<close>

definition deluxe_room :: Room where
  "deluxe_room =
     \<lparr>room_id = 1, name = ''Deluxe Room'', room_type = ''deluxe'', rack_rate = 5000,
      direct_rate = 4250, inventory = 10,
      description = ''Spacious room with premium amenities'',
      amenities = ''WiFi, TV, AC, Mini-bar'', max_occupancy = 2, savings = 750,
      discount_percentage = 15\<rparr>"

text \<open>The same query with room data that a caller put in: the deluxe room alone.\<close>

definition caller_supplied_query :: ResponseContext where
  "caller_supplied_query = suite_query\<lparr>room_data := Some [deluxe_room]\<rparr>"

text \<open>The dictionary of a suite that is sold out, and an availability check that carries it.\<close>

definition sold_out_suite :: Room where
  "sold_out_suite =
     \<lparr>room_id = 2, name = ''Suite Room'', room_type = ''suite'', rack_rate = 8000,
      direct_rate = 6800, inventory = 0,
      description = ''Luxury suite with separate living area'',
      amenities = ''WiFi, TV, AC, Mini-bar, Bathtub, Balcony'', max_occupancy = 4,
      savings = 1200, discount_percentage = 15\<rparr>"

definition sold_out_check :: ResponseContext where
  "sold_out_check =
     \<lparr>ctx_intent = CHECK_AVAILABILITY, ctx_entities = [suite_entity],
      user_query = ''is suite free'', room_data = Some [sold_out_suite]\<rparr>"

text \<open>
  A model that asks for the tool on the first request and answers the follow-up request
  with a message without content.
\<close>

definition silent_after_tool :: client where
  "silent_after_tool =
     \<lparr>first_completion = Message None [''get_rooms''],
      second_completion = Message None []\<rparr>"

section \<open>Notions used to state the properties of the generator\<close>

text \<open>Two calls of \<open>generate\<close> in succession on one context object.\<close>

definition generate_twice ::
  "config \<Rightarrow> store \<Rightarrow> ResponseContext \<Rightarrow> py_error + string \<times> string" where
  "generate_twice cfg db context =
     (case generate_response cfg db context of
        Inl e \<Rightarrow> Inl e
      | Inr (first, context1) \<Rightarrow>
          (case generate_response cfg db context1 of
             Inl e \<Rightarrow> Inl e
           | Inr (second, context2) \<Rightarrow> Inr (first, second)))"

text \<open>
  The contexts on which the room-type filter of \<open>_handle_room_query\<close> cannot empty room
  data that did not come from the store: the intent is another one, or the context brings
  no room data, or it brings the store's current listing, or it names no room type, or a
  room of its data matches the type.
\<close>

definition refetch_safe :: "store \<Rightarrow> ResponseContext \<Rightarrow> bool" where
  "refetch_safe db context =
     (ctx_intent context \<noteq> QUERY_ROOMS
      \<or> rooms_of context = []
      \<or> get_rooms db True = Inr (rooms_of context)
      \<or> (case room_type_entities context of
            [] \<Rightarrow> True
          | e # _ \<Rightarrow> matching_rooms (ent_value e) (rooms_of context) \<noteq> []))"


section \<open>Properties of the classifier\<close>

subsection \<open>Scores and the choice of the maximum\<close>

lemma pattern_score_le: "pattern_score ps t \<le> length ps"
  by (simp add: pattern_score_def)

lemma fraction_bounds: "0 \<le> fraction ps t \<and> fraction ps t \<le> 1"
  using pattern_score_le [of ps t]
  by (cases "length ps = 0") (simp_all add: fraction_def divide_le_eq)

lemma fraction_pos: "0 < pattern_score ps t \<Longrightarrow> 0 < fraction ps t"
  using pattern_score_le [of ps t] by (auto simp: fraction_def intro!: divide_pos_pos)

lemma fraction_zero: "pattern_score ps t = 0 \<Longrightarrow> fraction ps t = 0"
  by (simp add: fraction_def)

lemma score_intents_eq:
  "score_intents tbl t =
     Inr (map (\<lambda>ip. (fst ip, fraction (snd ip) t))
              (filter (\<lambda>ip. 0 < pattern_score (snd ip) t) tbl))"
proof (induction tbl)
  case Nil
  show ?case by simp
next
  case (Cons ip tbl)
  obtain i ps where ip: "ip = (i, ps)" by (cases ip)
  show ?case
  proof (cases "0 < pattern_score ps t")
    case True
    then have len: "length ps \<noteq> 0"
      using pattern_score_le [of ps t] by auto
    have "min (fraction ps t) 1 = fraction ps t"
      using fraction_bounds [of ps t] by simp
    then show ?thesis
      using True len Cons.IH by (simp add: ip Let_def fraction_def)
  next
    case False
    then show ?thesis using Cons.IH by (simp add: ip Let_def)
  qed
qed

lemma max_from_first:
  "\<exists>before after. best # rest = before @ max_from best rest # after
     \<and> (\<forall>kv\<in>set before. snd kv < snd (max_from best rest))
     \<and> (\<forall>kv\<in>set after. snd kv \<le> snd (max_from best rest))"
proof (induction rest arbitrary: best)
  case Nil
  show ?case by (rule exI [of _ "[]"]) simp
next
  case (Cons kv rest)
  show ?case
  proof (cases "snd best < snd kv")
    case True
    define m where "m = max_from kv rest"
    from Cons.IH [of kv] obtain before after where
      d: "kv # rest = before @ m # after"
      and b: "\<forall>x\<in>set before. snd x < snd m"
      and a: "\<forall>x\<in>set after. snd x \<le> snd m" unfolding m_def by blast
    have "kv \<in> set (before @ m # after)" using d by (metis list.set_intros(1))
    then have "snd kv \<le> snd m" using a b by auto
    then have lt: "snd best < snd m" using True by simp
    have m: "max_from best (kv # rest) = m" using True by (simp add: m_def)
    have "best # kv # rest = (best # before) @ m # after" using d by simp
    moreover have "\<forall>x\<in>set (best # before). snd x < snd m" using b lt by simp
    ultimately show ?thesis unfolding m using a by blast
  next
    case False
    define m where "m = max_from best rest"
    from Cons.IH [of best] obtain before after where
      d: "best # rest = before @ m # after"
      and b: "\<forall>x\<in>set before. snd x < snd m"
      and a: "\<forall>x\<in>set after. snd x \<le> snd m" unfolding m_def by blast
    have m: "max_from best (kv # rest) = m" using False by (simp add: m_def)
    show ?thesis
    proof (cases before)
      case Nil
      then have "best # kv # rest = [] @ m # (kv # after)" using d by simp
      moreover have "\<forall>x\<in>set (kv # after). snd x \<le> snd m" using d a False Nil by auto
      moreover have "\<forall>x\<in>set ([] :: (Intent \<times> rat) list). snd x < snd m" by simp
      ultimately show ?thesis unfolding m by blast
    next
      case (Cons b' bs)
      then have bb: "b' = best" and r: "rest = bs @ m # after" using d by auto
      have lt: "snd best < snd m" using b Cons bb by simp
      have "best # kv # rest = (best # kv # bs) @ m # after" using r by simp
      moreover have "\<forall>x\<in>set (best # kv # bs). snd x < snd m"
        using b Cons bb False lt by auto
      ultimately show ?thesis unfolding m using a by blast
    qed
  qed
qed

lemma filter_eq_appendD:
  "filter P xs = ys @ zs \<Longrightarrow> \<exists>us vs. xs = us @ vs \<and> filter P us = ys \<and> filter P vs = zs"
proof (induction xs arbitrary: ys)
  case Nil
  then show ?case by simp
next
  case (Cons x xs)
  show ?case
  proof (cases "P x")
    case False
    then have "filter P xs = ys @ zs" using Cons.prems by simp
    from Cons.IH [OF this] obtain us vs where
      "xs = us @ vs" "filter P us = ys" "filter P vs = zs" by blast
    then have "x # xs = (x # us) @ vs \<and> filter P (x # us) = ys \<and> filter P vs = zs"
      using False by simp
    then show ?thesis by blast
  next
    case True
    show ?thesis
    proof (cases ys)
      case Nil
      then have "x # xs = [] @ (x # xs) \<and> filter P [] = ys \<and> filter P (x # xs) = zs"
        using Cons.prems by simp
      then show ?thesis by blast
    next
      case (Cons y ys')
      then have "filter P xs = ys' @ zs" and yx: "y = x" using Cons.prems True by simp_all
      from Cons.IH [OF this(1)] obtain us vs where
        "xs = us @ vs" "filter P us = ys'" "filter P vs = zs" by blast
      then have "x # xs = (x # us) @ vs \<and> filter P (x # us) = ys \<and> filter P vs = zs"
        using True Cons yx by simp
      then show ?thesis by blast
    qed
  qed
qed

lemma first_max_in_table:
  assumes scores: "score_intents tbl t = Inr (kv # rest)"
  shows "\<exists>before ps after. tbl = before @ (fst (max_from kv rest), ps) # after
           \<and> snd (max_from kv rest) = fraction ps t
           \<and> 0 < pattern_score ps t
           \<and> (\<forall>x\<in>set before. fraction (snd x) t < fraction ps t)
           \<and> (\<forall>x\<in>set after. fraction (snd x) t \<le> fraction ps t)"
proof -
  define P where "P = (\<lambda>ip :: Intent \<times> regex list. 0 < pattern_score (snd ip) t)"
  define f where "f = (\<lambda>ip :: Intent \<times> regex list. (fst ip, fraction (snd ip) t))"
  define m where "m = max_from kv rest"
  have eq: "map f (filter P tbl) = kv # rest"
    using scores by (simp add: score_intents_eq P_def f_def)
  from max_from_first [of kv rest] obtain sb sa where
    d: "kv # rest = sb @ m # sa"
    and b: "\<forall>x\<in>set sb. snd x < snd m"
    and a: "\<forall>x\<in>set sa. snd x \<le> snd m" unfolding m_def by blast
  from eq d have "map f (filter P tbl) = sb @ (m # sa)" by simp
  then obtain fb fr where fbr: "filter P tbl = fb @ fr" "sb = map f fb" "m # sa = map f fr"
    by (auto simp: map_eq_append_conv)
  from fbr(3) obtain x fa where fr: "fr = x # fa" "f x = m" "map f fa = sa"
    by (auto simp: Cons_eq_map_conv)
  from filter_eq_appendD [OF fbr(1)] obtain us vs where
    uv: "tbl = us @ vs" "filter P us = fb" "filter P vs = fr" by blast
  from uv(3) fr(1) obtain ws ts where
    wt: "vs = ws @ x # ts" "\<forall>u\<in>set ws. \<not> P u" "P x" "fa = filter P ts"
    using filter_eq_ConsD [of P vs x fa] by auto
  have mx: "fst m = fst x" "snd m = fraction (snd x) t" using fr(2) by (auto simp: f_def)
  have pos: "0 < fraction (snd x) t" using wt(3) by (simp add: P_def fraction_pos)
  have before: "fraction (snd u) t < fraction (snd x) t" if "u \<in> set (us @ ws)" for u
  proof (cases "P u")
    case True
    then have "u \<in> set fb" using that uv(2) wt(2) by auto
    then have "f u \<in> set sb" using fbr(2) by simp
    then show ?thesis using b mx by (auto simp: f_def)
  next
    case False
    then show ?thesis using pos by (simp add: P_def fraction_zero)
  qed
  have after: "fraction (snd u) t \<le> fraction (snd x) t" if "u \<in> set ts" for u
  proof (cases "P u")
    case True
    then have "u \<in> set fa" using that wt(4) by simp
    then have "f u \<in> set sa" using fr(3) by auto
    then show ?thesis using a mx by (auto simp: f_def)
  next
    case False
    then show ?thesis using pos by (simp add: P_def fraction_zero)
  qed
  have tbl: "tbl = (us @ ws) @ (fst m, snd x) # ts" using uv(1) wt(1) mx by simp
  have px: "0 < pattern_score (snd x) t" using wt(3) by (simp add: P_def)
  have "tbl = (us @ ws) @ (fst m, snd x) # ts
           \<and> snd m = fraction (snd x) t
           \<and> 0 < pattern_score (snd x) t
           \<and> (\<forall>u\<in>set (us @ ws). fraction (snd u) t < fraction (snd x) t)
           \<and> (\<forall>u\<in>set ts. fraction (snd u) t \<le> fraction (snd x) t)"
    using tbl mx(2) px before after by blast
  then show ?thesis unfolding m_def by (intro exI)
qed

subsection \<open>Blank input\<close>

lemma lower_char_space: "is_space c \<Longrightarrow> lower_char c = c"
  unfolding is_space_def lower_char_def by (elim disjE | simp)+

lemma strip_blank:
  assumes "\<forall>c\<in>set s. is_space c"
  shows "strip (lower s) = []"
proof -
  have "map lower_char s = s"
    by (rule map_idI) (use assms lower_char_space in blast)
  moreover have "dropWhile is_space s = []" using assms by simp
  ultimately show ?thesis by (simp only: strip_def lower_def rev.simps dropWhile.simps)
qed

subsection \<open>The order of the extracted entities\<close>

lemma finditer_scan_sorted:
  "sorted (map fst (finditer_scan r skip i sts)) \<and> (\<forall>m\<in>set (finditer_scan r skip i sts). i \<le> fst m)"
proof (induction sts arbitrary: skip i)
  case Nil
  show ?case by simp
next
  case (Cons st sts)
  have ih: "sorted (map fst (finditer_scan r k (i + 1) sts))"
           "\<forall>m\<in>set (finditer_scan r k (i + 1) sts). i \<le> fst m" for k
    using Cons.IH [of k "i + 1"] by auto
  show ?case
    using ih by (auto simp: Let_def split: list.splits)
qed

lemma finditer_sorted: "sorted (map fst (finditer r t))"
  using finditer_scan_sorted by (simp add: finditer_def)

lemma sorted_blocks:
  fixes F :: "nat \<times> 'a \<Rightarrow> ((nat \<times> 'k :: linorder) \<times> 'e) list"
  assumes blk: "\<And>k x. sorted (map fst (F (k, x)))"
    and key: "\<And>k x y. y \<in> set (F (k, x)) \<Longrightarrow> fst (fst y) = k"
  shows "sorted (map fst (concat (map F (enumerate n xs))))"
proof (induction xs arbitrary: n)
  case Nil
  show ?case by simp
next
  case (Cons x xs)
  have later: "n < fst (fst z)" if "z \<in> set (concat (map F (enumerate (Suc n) xs)))" for z
  proof -
    from that obtain k y where "(k, y) \<in> set (enumerate (Suc n) xs)" "z \<in> set (F (k, y))"
      by auto
    then show ?thesis using key [of z k y] by (auto simp: in_set_enumerate_eq)
  qed
  have "a \<le> b" if "a \<in> set (map fst (F (n, x)))"
    "b \<in> set (map fst (concat (map F (enumerate (Suc n) xs))))" for a b
  proof -
    from that(1) obtain y where y: "y \<in> set (F (n, x))" "a = fst y" by auto
    from that(2) obtain z where z: "z \<in> set (concat (map F (enumerate (Suc n) xs)))" "b = fst z"
      by auto
    have "fst a = n" using key [OF y(1)] y(2) by simp
    moreover have "n < fst b" using later [OF z(1)] z(2) by simp
    ultimately show ?thesis by (cases a, cases b) simp
  qed
  then show ?case
    using blk [of n x] Cons.IH [of "Suc n"] by (simp add: sorted_append)
qed

lemma snd_blocks:
  assumes "\<And>k x. map snd (F (k, x)) = G x"
  shows "map snd (concat (map F (enumerate n xs))) = concat (map G xs)"
  by (induction xs arbitrary: n) (simp_all add: assms map_concat)

lemma sorted_Pair: "sorted ns \<Longrightarrow> sorted (map (Pair (k :: nat)) (ns :: ('b :: linorder) list))"
  by (induction ns) auto

lemma pattern_trace_sorted: "sorted (map fst (pattern_trace t ty (k, pd)))"
proof -
  have eq: "map fst (pattern_trace t ty (k, pd)) = map (Pair k) (map fst (finditer (fst pd) t))"
    by (simp add: pattern_trace_def o_def)
  show ?thesis unfolding eq by (rule sorted_Pair) (rule finditer_sorted)
qed

lemma pattern_block_sorted:
  "sorted (map fst (concat (map (pattern_trace t ty) (enumerate n pds))))"
proof (rule sorted_blocks)
  show "sorted (map fst (pattern_trace t ty (k, x)))" for k x
    by (rule pattern_trace_sorted)
  show "fst (fst y) = k" if "y \<in> set (pattern_trace t ty (k, x))" for k x y
    using that by (auto simp: pattern_trace_def)
qed

lemma type_trace_sorted: "sorted (map fst (type_trace t (k, tp)))"
proof -
  have eq: "map fst (type_trace t (k, tp))
          = map (Pair k) (map fst (concat (map (pattern_trace t (fst tp)) (enumerate 0 (snd tp)))))"
    by (simp add: type_trace_def o_def)
  show ?thesis unfolding eq by (rule sorted_Pair) (rule pattern_block_sorted)
qed

lemma entity_trace_sorted: "sorted (map fst (entity_trace t))"
  unfolding entity_trace_def
proof (rule sorted_blocks)
  show "sorted (map fst (type_trace t (k, x)))" for k x
    by (rule type_trace_sorted)
  show "fst (fst y) = k" if "y \<in> set (type_trace t (k, x))" for k x y
    using that by (auto simp: type_trace_def)
qed

lemma pattern_trace_entities: "map snd (pattern_trace t ty (k, pd)) = pattern_entities t ty pd"
  by (simp add: pattern_trace_def pattern_entities_def)

lemma type_trace_entities:
  "map snd (type_trace t (k, tp)) = concat (map (pattern_entities t (fst tp)) (snd tp))"
proof -
  have "map snd (type_trace t (k, tp))
          = map snd (concat (map (pattern_trace t (fst tp)) (enumerate 0 (snd tp))))"
    by (simp add: type_trace_def)
  also have "\<dots> = concat (map (pattern_entities t (fst tp)) (snd tp))"
    by (rule snd_blocks) (rule pattern_trace_entities)
  finally show ?thesis .
qed

lemma entity_trace_entities: "map snd (entity_trace t) = extract_entities t"
  unfolding entity_trace_def extract_entities_def
  by (rule snd_blocks) (rule type_trace_entities)

subsection \<open>The result of classification\<close>

lemma keys_distinct: "distinct (map fst intent_patterns)"
  by (simp add: intent_patterns_def)

lemma unknown_not_key: "UNKNOWN \<notin> fst ` set intent_patterns"
  by (simp add: intent_patterns_def)

lemma recognize_cases:
  "(recognize_intent t = Inr (UNKNOWN, 0)
     \<and> (\<forall>x\<in>set intent_patterns. pattern_score (snd x) t = 0))
   \<or> (\<exists>before i ps after.
        recognize_intent t = Inr (i, fraction ps t)
        \<and> intent_patterns = before @ (i, ps) # after
        \<and> 0 < pattern_score ps t
        \<and> (\<forall>x\<in>set before. fraction (snd x) t < fraction ps t)
        \<and> (\<forall>x\<in>set after. fraction (snd x) t \<le> fraction ps t))"
proof -
  obtain scores where s: "score_intents intent_patterns t = Inr scores"
    using score_intents_eq by blast
  show ?thesis
  proof (cases scores)
    case Nil
    have "filter (\<lambda>ip. 0 < pattern_score (snd ip) t) intent_patterns = []"
      using s Nil by (simp add: score_intents_eq)
    then have "\<forall>x\<in>set intent_patterns. pattern_score (snd x) t = 0"
      by (simp add: filter_empty_conv)
    then show ?thesis using s Nil by (simp add: recognize_intent_def)
  next
    case (Cons kv rest)
    from first_max_in_table [OF s [unfolded Cons]] obtain before ps after where
      d: "intent_patterns = before @ (fst (max_from kv rest), ps) # after"
      "snd (max_from kv rest) = fraction ps t" "0 < pattern_score ps t"
      "\<forall>x\<in>set before. fraction (snd x) t < fraction ps t"
      "\<forall>x\<in>set after. fraction (snd x) t \<le> fraction ps t" by blast
    have "recognize_intent t = Inr (fst (max_from kv rest), fraction ps t)"
      using s Cons d(2) by (simp add: recognize_intent_def max_key_def prod_eq_iff)
    then show ?thesis using d by blast
  qed
qed

lemma process_result:
  "recognize_intent (strip (lower s)) = Inr (i, c) \<Longrightarrow>
   process s = Inr \<lparr>intent = i, confidence = c,
                     entities = extract_entities (strip (lower s)), original_text = s\<rparr>"
  by (simp add: process_def)

lemma recognize_empty: "recognize_intent [] = Inr (UNKNOWN, 0)"
  by code_simp

lemma extract_empty: "extract_entities [] = []"
  by code_simp

lemma scores_tie:
  "score_intents intent_patterns ''hi whats rate'' = Inr [(GREETING, 1 / 2), (QUERY_PRICES, 1 / 2)]"
  by code_simp

lemma normal_tie: "strip (lower ''hi whats rate'') = ''hi whats rate''"
  by code_simp

lemma entities_tie: "extract_entities ''hi whats rate'' = []"
  by code_simp

lemma process_tie:
  "process ''hi whats rate'' =
     Inr \<lparr>intent = GREETING, confidence = 1 / 2, entities = [],
          original_text = ''hi whats rate''\<rparr>"
proof -
  have "recognize_intent ''hi whats rate'' = Inr (GREETING, 1 / 2)"
    by (simp add: recognize_intent_def scores_tie max_key_def)
  then show ?thesis
    using process_result [of "''hi whats rate''" GREETING "1 / 2"]
    by (simp only: normal_tie entities_tie)
qed

section \<open>Claims about the classifier\<close>

text \<open>
  Claim C1. For every input text the classifier returns a result; its confidence lies
  between 0 and 1, is 0 exactly when the intent is \<open>UNKNOWN\<close>, and for any other intent
  it is the number of that intent's patterns found in the lower-cased, trimmed text divided
  by the number of that intent's patterns.
\<close>

theorem classify_confidence:
  "\<exists>r. process s = Inr r
       \<and> 0 \<le> confidence r \<and> confidence r \<le> 1
       \<and> (confidence r = 0 \<longleftrightarrow> intent r = UNKNOWN)
       \<and> (intent r \<noteq> UNKNOWN \<longrightarrow>
            (\<exists>ps. map_of intent_patterns (intent r) = Some ps
                  \<and> confidence r
                      = of_nat (length (filter (\<lambda>p. re_search p (strip (lower s))) ps))
                          / of_nat (length ps)))"
proof -
  define t where "t = strip (lower s)"
  from recognize_cases [of t] show ?thesis
  proof
    assume "recognize_intent t = Inr (UNKNOWN, 0)
      \<and> (\<forall>x\<in>set intent_patterns. pattern_score (snd x) t = 0)"
    then have "recognize_intent t = Inr (UNKNOWN, 0)" by simp
    then have "process s = Inr \<lparr>intent = UNKNOWN, confidence = 0,
                     entities = extract_entities (strip (lower s)), original_text = s\<rparr>"
      unfolding t_def by (rule process_result)
    then show ?thesis by simp
  next
    assume "\<exists>before i ps after.
        recognize_intent t = Inr (i, fraction ps t)
        \<and> intent_patterns = before @ (i, ps) # after
        \<and> 0 < pattern_score ps t
        \<and> (\<forall>x\<in>set before. fraction (snd x) t < fraction ps t)
        \<and> (\<forall>x\<in>set after. fraction (snd x) t \<le> fraction ps t)"
    then obtain before i ps after where
      r: "recognize_intent t = Inr (i, fraction ps t)"
      and d: "intent_patterns = before @ (i, ps) # after"
      and pos: "0 < pattern_score ps t" by blast
    have p: "process s = Inr \<lparr>intent = i, confidence = fraction ps t,
                     entities = extract_entities (strip (lower s)), original_text = s\<rparr>"
      using r unfolding t_def by (rule process_result)
    have mem: "(i, ps) \<in> set intent_patterns" by (subst d) simp
    then have "fst (i, ps) \<in> fst ` set intent_patterns" by (rule imageI)
    then have ne: "i \<noteq> UNKNOWN" using unknown_not_key by (metis fst_conv)
    have look: "map_of intent_patterns i = Some ps"
      using mem keys_distinct by simp
    have frac: "fraction ps t
        = of_nat (length (filter (\<lambda>p. re_search p (strip (lower s))) ps)) / of_nat (length ps)"
      by (simp add: fraction_def pattern_score_def t_def)
    have "0 < fraction ps t" using pos by (rule fraction_pos)
    then show ?thesis
      using p ne look frac fraction_bounds [of ps t] by auto
  qed
qed

theorem classify_confidence_witness:
  "\<exists>r. process ''hi whats rate'' = Inr r \<and> intent r = GREETING \<and> intent r \<noteq> UNKNOWN
       \<and> confidence r = 1 / 2
       \<and> (\<exists>ps. map_of intent_patterns GREETING = Some ps
             \<and> (1 / 2 :: rat)
                 = of_nat (length (filter (\<lambda>p. re_search p (strip (lower ''hi whats rate''))) ps))
                     / of_nat (length ps))"
  using classify_confidence [of "''hi whats rate''"] by (auto simp: process_tie)

text \<open>
  Claim C2, as amended. When no pattern of any intent matches the text the answer is
  \<open>UNKNOWN\<close> with confidence 0. Otherwise the winning intent is the first entry of the
  pattern table, in the order in which \<open>_initialize_intent_patterns\<close> writes it
  (\<open>GREETING\<close>, \<open>GOODBYE\<close>, \<open>QUERY_ROOMS\<close>, \<open>QUERY_PRICES\<close>,
  \<open>CHECK_AVAILABILITY\<close>, \<open>COMPARE_RATES\<close>, \<open>BOOK_ROOM\<close>, \<open>HELP\<close>), that attains
  the maximal score: at least one of its patterns matches, every entry before it scores
  strictly less, every entry after it scores at most as much; so among tied intents the
  one written first in the table wins. The classifier is a function of the text, so
  repeated calls agree.
\<close>

theorem tie_break_table_order:
  "\<exists>r. process s = Inr r
       \<and> (((\<forall>x\<in>set intent_patterns. pattern_score (snd x) (strip (lower s)) = 0)
             \<and> intent r = UNKNOWN \<and> confidence r = 0)
            \<or> (\<exists>before ps after.
                  intent_patterns = before @ (intent r, ps) # after
                  \<and> 0 < pattern_score ps (strip (lower s))
                  \<and> confidence r = fraction ps (strip (lower s))
                  \<and> (\<forall>x\<in>set before. fraction (snd x) (strip (lower s)) < confidence r)
                  \<and> (\<forall>x\<in>set after. fraction (snd x) (strip (lower s)) \<le> confidence r)))"
proof -
  define t where "t = strip (lower s)"
  from recognize_cases [of t] show ?thesis
  proof
    assume a: "recognize_intent t = Inr (UNKNOWN, 0)
      \<and> (\<forall>x\<in>set intent_patterns. pattern_score (snd x) t = 0)"
    then have "recognize_intent t = Inr (UNKNOWN, 0)" by simp
    then have "process s = Inr \<lparr>intent = UNKNOWN, confidence = 0,
                     entities = extract_entities (strip (lower s)), original_text = s\<rparr>"
      unfolding t_def by (rule process_result)
    then show ?thesis using a unfolding t_def by simp
  next
    assume "\<exists>before i ps after.
        recognize_intent t = Inr (i, fraction ps t)
        \<and> intent_patterns = before @ (i, ps) # after
        \<and> 0 < pattern_score ps t
        \<and> (\<forall>x\<in>set before. fraction (snd x) t < fraction ps t)
        \<and> (\<forall>x\<in>set after. fraction (snd x) t \<le> fraction ps t)"
    then obtain before i ps after where
      r: "recognize_intent t = Inr (i, fraction ps t)"
      and d: "intent_patterns = before @ (i, ps) # after"
      and pos: "0 < pattern_score ps t"
      and b: "\<forall>x\<in>set before. fraction (snd x) t < fraction ps t"
      and a: "\<forall>x\<in>set after. fraction (snd x) t \<le> fraction ps t" by blast
    have p: "process s = Inr \<lparr>intent = i, confidence = fraction ps t,
                     entities = extract_entities (strip (lower s)), original_text = s\<rparr>"
      using r unfolding t_def by (rule process_result)
    let ?r = "\<lparr>intent = i, confidence = fraction ps t,
                entities = extract_entities (strip (lower s)), original_text = s\<rparr>"
    have "\<exists>before ps' after.
            intent_patterns = before @ (intent ?r, ps') # after
            \<and> 0 < pattern_score ps' t
            \<and> confidence ?r = fraction ps' t
            \<and> (\<forall>x\<in>set before. fraction (snd x) t < confidence ?r)
            \<and> (\<forall>x\<in>set after. fraction (snd x) t \<le> confidence ?r)"
      using d pos b a by auto
    then show ?thesis unfolding p t_def [symmetric] by blast
  qed
qed

theorem tie_break_table_order_witness:
  "\<exists>r. process ''hi whats rate'' = Inr r \<and> intent r = GREETING
       \<and> (\<exists>before ps after.
             intent_patterns = before @ (GREETING, ps) # after
             \<and> 0 < pattern_score ps (strip (lower ''hi whats rate''))
             \<and> fraction ps (strip (lower ''hi whats rate'')) = 1 / 2)"
  using tie_break_table_order [of "''hi whats rate''"] by (auto simp: process_tie)

text \<open>
  Claim C2 as stated fails: on \<open>hi whats rate\<close> the intents \<open>GREETING\<close> and
  \<open>QUERY_PRICES\<close> both score 1/2, \<open>QUERY_PRICES\<close> is declared before \<open>GREETING\<close> in
  the enumeration, and the classifier answers \<open>GREETING\<close>.
\<close>

theorem tie_break_enum_order_counterexample:
  "score_intents intent_patterns (strip (lower ''hi whats rate''))
     = Inr [(GREETING, 1 / 2), (QUERY_PRICES, 1 / 2)]
   \<and> declared_before QUERY_PRICES GREETING
   \<and> process ''hi whats rate''
       = Inr \<lparr>intent = GREETING, confidence = 1 / 2, entities = [],
              original_text = ''hi whats rate''\<rparr>"
  by (simp add: normal_tie scores_tie process_tie declared_before_def Intent_members_def)

text \<open>
  Claim C7. The classifier returns a result for every input (no operation of it raises),
  and on an input that is empty or consists of whitespace only the result is \<open>UNKNOWN\<close>
  with confidence 0 and no entities.
\<close>

theorem classify_total_and_blank:
  "(\<exists>r. process s = Inr r)
   \<and> ((\<forall>c\<in>set s. is_space c) \<longrightarrow>
        process s = Inr \<lparr>intent = UNKNOWN, confidence = 0, entities = [], original_text = s\<rparr>)"
proof
  from recognize_cases [of "strip (lower s)"] obtain i c where
    "recognize_intent (strip (lower s)) = Inr (i, c)" by blast
  from process_result [OF this] show "\<exists>r. process s = Inr r" by blast
next
  show "(\<forall>c\<in>set s. is_space c) \<longrightarrow>
        process s = Inr \<lparr>intent = UNKNOWN, confidence = 0, entities = [], original_text = s\<rparr>"
  proof
    assume "\<forall>c\<in>set s. is_space c"
    then have e: "strip (lower s) = []" by (rule strip_blank)
    have "recognize_intent (strip (lower s)) = Inr (UNKNOWN, 0)"
      unfolding e by (rule recognize_empty)
    from process_result [OF this] show
      "process s = Inr \<lparr>intent = UNKNOWN, confidence = 0, entities = [], original_text = s\<rparr>"
      by (simp only: e extract_empty)
  qed
qed

theorem classify_total_and_blank_witness:
  "is_space (CHR '' '')
   \<and> process ''   ''
       = Inr \<lparr>intent = UNKNOWN, confidence = 0, entities = [], original_text = ''   ''\<rparr>"
  using classify_total_and_blank [of "''   ''"] by (simp add: is_space_def)

lemma blocks_filter:
  assumes key: "\<And>k x y. y \<in> set (F (k, x)) \<Longrightarrow> K y = k"
  shows "filter (\<lambda>y. K y = j) (concat (map F (enumerate n xs)))
           = (if n \<le> j \<and> j < n + length xs then F (j, xs ! (j - n)) else [])"
proof (induction xs arbitrary: n)
  case Nil
  show ?case by auto
next
  case (Cons x xs)
  have here: "filter (\<lambda>y. K y = j) (F (n, x)) = (if j = n then F (n, x) else [])"
  proof (cases "j = n")
    case True
    then have "\<forall>y\<in>set (F (n, x)). K y = j" using key by blast
    then show ?thesis using True by simp
  next
    case False
    then have "\<forall>y\<in>set (F (n, x)). K y \<noteq> j" using key by blast
    then show ?thesis using False by simp
  qed
  have rest: "filter (\<lambda>y. K y = j) (concat (map F (enumerate (Suc n) xs)))
           = (if Suc n \<le> j \<and> j < Suc n + length xs then F (j, xs ! (j - Suc n)) else [])"
    by (rule Cons.IH)
  show ?case
  proof (cases "j = n")
    case True
    then show ?thesis using here rest by simp
  next
    case False
    show ?thesis
    proof (cases "Suc n \<le> j \<and> j < Suc n + length xs")
      case True
      then have "(x # xs) ! (j - n) = xs ! (j - Suc n)"
        by (metis Suc_diff_Suc Suc_le_lessD nth_Cons_Suc)
      then show ?thesis using here rest False True by simp
    next
      case f: False
      then have g: "\<not> (n \<le> j \<and> j < n + length (x # xs))" using False by auto
      have r0: "filter (\<lambda>y. K y = j) (concat (map F (enumerate (Suc n) xs))) = []"
        by (subst rest) (rule if_not_P, rule f)
      have h0: "filter (\<lambda>y. K y = j) (F (n, x)) = []" using here False by simp
      have "filter (\<lambda>y. K y = j) (concat (map F (enumerate n (x # xs)))) = []"
        using h0 r0 by simp
      then show ?thesis by (subst if_not_P [OF g])
    qed
  qed
qed

lemma finditer_scan_finds:
  "list_ex (\<lambda>st. ends r st \<noteq> []) sts \<Longrightarrow> finditer_scan r 0 i sts \<noteq> []"
proof (induction sts arbitrary: i)
  case Nil
  then show ?case by simp
next
  case (Cons st sts)
  show ?case
  proof (cases "ends r st")
    case Nil
    then have "list_ex (\<lambda>st. ends r st \<noteq> []) sts" using Cons.prems by simp
    from Cons.IH [OF this] show ?thesis using Nil by simp
  next
    case (Cons e es)
    then show ?thesis by (simp split: list.splits)
  qed
qed

lemma search_finditer: "re_search r t \<Longrightarrow> finditer r t \<noteq> []"
  unfolding re_search_def finditer_def by (rule finditer_scan_finds)

lemma type_trace_key: "y \<in> set (type_trace t (k, tp)) \<Longrightarrow> fst (fst y) = k"
  by (auto simp: type_trace_def)

lemma pattern_trace_key: "y \<in> set (pattern_trace t ty (k, pd)) \<Longrightarrow> fst (fst y) = k"
  by (auto simp: pattern_trace_def)

lemma trace_of_type:
  assumes "ti < length entity_patterns"
  shows "filter (\<lambda>ke. fst (fst ke) = ti) (entity_trace t)
           = type_trace t (ti, entity_patterns ! ti)"
proof -
  have "filter (\<lambda>y. fst (fst y) = ti) (concat (map (type_trace t) (enumerate 0 entity_patterns)))
          = (if 0 \<le> ti \<and> ti < 0 + length entity_patterns
             then type_trace t (ti, entity_patterns ! (ti - 0)) else [])"
    using blocks_filter [where F = "type_trace t" and K = "\<lambda>y. fst (fst y)" and j = ti
        and n = 0 and xs = entity_patterns] type_trace_key
    by blast
  then show ?thesis using assms by (simp add: entity_trace_def)
qed

lemma trace_of_pattern:
  assumes "pj < length ps"
  shows "filter (\<lambda>ke. fst (snd (fst ke)) = pj) (type_trace t (ti, (ty, ps)))
           = map (\<lambda>ke. ((ti, fst ke), snd ke)) (pattern_trace t ty (pj, ps ! pj))"
proof -
  have "filter (\<lambda>y. fst (fst y) = pj) (concat (map (pattern_trace t ty) (enumerate 0 ps)))
          = (if 0 \<le> pj \<and> pj < 0 + length ps
             then pattern_trace t ty (pj, ps ! (pj - 0)) else [])"
    using blocks_filter [where F = "pattern_trace t ty" and K = "\<lambda>y. fst (fst y)" and j = pj
        and n = 0 and xs = ps] pattern_trace_key
    by blast
  then have inner: "filter (\<lambda>y. fst (fst y) = pj) (concat (map (pattern_trace t ty) (enumerate 0 ps)))
          = pattern_trace t ty (pj, ps ! pj)"
    using assms by simp
  have "filter (\<lambda>ke. fst (snd (fst ke)) = pj) (type_trace t (ti, (ty, ps)))
          = map (\<lambda>ke. ((ti, fst ke), snd ke))
              (filter (\<lambda>y. fst (fst y) = pj) (concat (map (pattern_trace t ty) (enumerate 0 ps))))"
    by (simp add: type_trace_def filter_map o_def)
  then show ?thesis unfolding inner .
qed

lemma entities_of_pattern:
  assumes ti: "ti < length entity_patterns" and tp: "entity_patterns ! ti = (ty, ps)"
    and pj: "pj < length ps"
  shows "map snd (filter (\<lambda>ke. fst (fst ke) = ti \<and> fst (snd (fst ke)) = pj) (entity_trace t))
           = pattern_entities t ty (ps ! pj)"
proof -
  have "filter (\<lambda>ke. fst (fst ke) = ti \<and> fst (snd (fst ke)) = pj) (entity_trace t)
          = filter (\<lambda>ke. fst (snd (fst ke)) = pj)
              (filter (\<lambda>ke. fst (fst ke) = ti) (entity_trace t))"
    by (simp add: conj_commute)
  also have "\<dots> = filter (\<lambda>ke. fst (snd (fst ke)) = pj) (type_trace t (ti, (ty, ps)))"
    using trace_of_type [OF ti] tp by simp
  also have "\<dots> = map (\<lambda>ke. ((ti, fst ke), snd ke)) (pattern_trace t ty (pj, ps ! pj))"
    by (rule trace_of_pattern [OF pj])
  finally show ?thesis
    by (simp add: o_def pattern_trace_def pattern_entities_def)
qed

lemma pattern_entities_length:
  "length (pattern_entities t ty pd) = length (finditer (fst pd) t)"
  by (simp add: pattern_entities_def)

lemma extracted_confidence: "\<forall>e\<in>set (extract_entities t). ent_confidence e = 9 / 10"
  by (auto simp: extract_entities_def pattern_entities_def)

lemma normal_deluxe_room: "strip (lower ''deluxe room'') = ''deluxe room''"
  by code_simp

lemma trace_deluxe_room:
  "entity_trace ''deluxe room''
     = [((0, 0, 0), \<lparr>ent_type = ''room_type'', ent_value = ''deluxe'', ent_confidence = 9 / 10\<rparr>),
        ((0, 1, 0), \<lparr>ent_type = ''room_type'', ent_value = ''deluxe'', ent_confidence = 9 / 10\<rparr>)]"
  by code_simp

lemma process_deluxe_room:
  "process ''deluxe room'' =
     Inr \<lparr>intent = UNKNOWN, confidence = 0,
          entities = [\<lparr>ent_type = ''room_type'', ent_value = ''deluxe'', ent_confidence = 9 / 10\<rparr>,
                      \<lparr>ent_type = ''room_type'', ent_value = ''deluxe'', ent_confidence = 9 / 10\<rparr>],
          original_text = ''deluxe room''\<rparr>"
  by code_simp

lemma room_type_patterns:
  "0 < length entity_patterns"
  "fst (entity_patterns ! 0) = ''room_type''"
  "1 < length (snd (entity_patterns ! 0))"
  "fst (snd (entity_patterns ! 0) ! 0) = bw (phrase [''deluxe'', ''room''])"
  "fst (snd (entity_patterns ! 0) ! 1) = bw (Lit ''deluxe'')"
  by (simp_all add: entity_patterns_def)

lemma deluxe_pattern_entities:
  "pattern_entities ''deluxe room'' ''room_type'' (snd (entity_patterns ! 0) ! 1)
     = [\<lparr>ent_type = ''room_type'', ent_value = ''deluxe'', ent_confidence = 9 / 10\<rparr>]"
  by code_simp

text \<open>
  Claim C10. Every pattern of the entity table contributes one entity for each of its
  matches in the text, whatever the other patterns contribute: the entities that come from
  one pattern are exactly those of its \<open>finditer\<close> matches, a pattern that is found in the
  text contributes at least one, and every entity has confidence 0.9. So one mention that
  several overlapping patterns match is extracted once per pattern. On \<open>deluxe room\<close>
  the result holds two entities of type \<open>room_type\<close> with value \<open>deluxe\<close>: the first
  from pattern 0 of the room types, the pattern for \<open>deluxe room\<close>, the second from
  pattern 1, the pattern for \<open>deluxe\<close>, both matching at offset 0.
\<close>

theorem one_entity_per_matching_pattern:
  "(\<exists>r. process s = Inr r \<and> entities r = map snd (entity_trace (strip (lower s))))
   \<and> (\<forall>ti ty ps pj.
         ti < length entity_patterns \<and> entity_patterns ! ti = (ty, ps) \<and> pj < length ps \<longrightarrow>
           map snd (filter (\<lambda>ke. fst (fst ke) = ti \<and> fst (snd (fst ke)) = pj)
                           (entity_trace (strip (lower s))))
             = pattern_entities (strip (lower s)) ty (ps ! pj)
           \<and> length (pattern_entities (strip (lower s)) ty (ps ! pj))
               = length (finditer (fst (ps ! pj)) (strip (lower s)))
           \<and> (re_search (fst (ps ! pj)) (strip (lower s)) \<longrightarrow>
                 pattern_entities (strip (lower s)) ty (ps ! pj) \<noteq> []))
   \<and> (\<forall>e\<in>set (extract_entities (strip (lower s))). ent_confidence e = 9 / 10)
   \<and> entity_trace ''deluxe room''
       = [((0, 0, 0),
           \<lparr>ent_type = ''room_type'', ent_value = ''deluxe'', ent_confidence = 9 / 10\<rparr>),
          ((0, 1, 0),
           \<lparr>ent_type = ''room_type'', ent_value = ''deluxe'', ent_confidence = 9 / 10\<rparr>)]
   \<and> fst (snd (entity_patterns ! 0) ! 0) = bw (phrase [''deluxe'', ''room''])
   \<and> fst (snd (entity_patterns ! 0) ! 1) = bw (Lit ''deluxe'')
   \<and> process ''deluxe room'' =
       Inr \<lparr>intent = UNKNOWN, confidence = 0,
            entities =
              [\<lparr>ent_type = ''room_type'', ent_value = ''deluxe'', ent_confidence = 9 / 10\<rparr>,
               \<lparr>ent_type = ''room_type'', ent_value = ''deluxe'', ent_confidence = 9 / 10\<rparr>],
            original_text = ''deluxe room''\<rparr>"
proof -
  define t where "t = strip (lower s)"
  from recognize_cases [of t] obtain i c where "recognize_intent (strip (lower s)) = Inr (i, c)"
    unfolding t_def by blast
  from process_result [OF this]
  have a: "\<exists>r. process s = Inr r \<and> entities r = map snd (entity_trace t)"
    by (simp add: entity_trace_entities t_def)
  have b: "map snd (filter (\<lambda>ke. fst (fst ke) = ti \<and> fst (snd (fst ke)) = pj) (entity_trace t))
             = pattern_entities t ty (ps ! pj)
           \<and> length (pattern_entities t ty (ps ! pj)) = length (finditer (fst (ps ! pj)) t)
           \<and> (re_search (fst (ps ! pj)) t \<longrightarrow> pattern_entities t ty (ps ! pj) \<noteq> [])"
    if "ti < length entity_patterns \<and> entity_patterns ! ti = (ty, ps) \<and> pj < length ps"
    for ti ty ps pj
  proof -
    have "map snd (filter (\<lambda>ke. fst (fst ke) = ti \<and> fst (snd (fst ke)) = pj) (entity_trace t))
             = pattern_entities t ty (ps ! pj)"
      using that by (intro entities_of_pattern) simp_all
    moreover have len: "length (pattern_entities t ty (ps ! pj)) = length (finditer (fst (ps ! pj)) t)"
      by (rule pattern_entities_length)
    moreover have "pattern_entities t ty (ps ! pj) \<noteq> []" if "re_search (fst (ps ! pj)) t"
      using search_finditer [OF that] len by auto
    ultimately show ?thesis by blast
  qed
  have c: "\<forall>e\<in>set (extract_entities t). ent_confidence e = 9 / 10"
    by (rule extracted_confidence)
  show ?thesis
    unfolding t_def [symmetric]
    using a b c trace_deluxe_room room_type_patterns(4,5) process_deluxe_room by blast
qed

theorem one_entity_per_matching_pattern_witness:
  "0 < length entity_patterns \<and> 1 < length (snd (entity_patterns ! 0))
   \<and> map snd (filter (\<lambda>ke. fst (fst ke) = 0 \<and> fst (snd (fst ke)) = 1)
                     (entity_trace (strip (lower ''deluxe room''))))
       = [\<lparr>ent_type = ''room_type'', ent_value = ''deluxe'', ent_confidence = 9 / 10\<rparr>]"
proof -
  have h: "0 < length entity_patterns
           \<and> entity_patterns ! 0 = (''room_type'', snd (entity_patterns ! 0))
           \<and> 1 < length (snd (entity_patterns ! 0))"
    using room_type_patterns(1-3) by (simp add: prod_eq_iff)
  from one_entity_per_matching_pattern [of "''deluxe room''"] h
  have "map snd (filter (\<lambda>ke. fst (fst ke) = 0 \<and> fst (snd (fst ke)) = 1)
                     (entity_trace (strip (lower ''deluxe room''))))
       = pattern_entities (strip (lower ''deluxe room'')) ''room_type''
           (snd (entity_patterns ! 0) ! 1)"
    by blast
  then show ?thesis
    using room_type_patterns(1,3) by (simp only: normal_deluxe_room deluxe_pattern_entities simp_thms)
qed

lemma normal_2_deluxe: "strip (lower ''2 deluxe'') = ''2 deluxe''"
  by code_simp

lemma trace_2_deluxe:
  "map match_offset (entity_trace ''2 deluxe'') = [2, 0]
   \<and> map ent_value (map snd (entity_trace ''2 deluxe'')) = [''deluxe'', ''2'']"
  by code_simp

text \<open>
  Claim C6, as amended. The entities of the result are listed by entity type in the order
  of the entity table (\<open>room_type\<close>, \<open>number\<close>, \<open>date\<close>, \<open>booking_source\<close>), within
  one type by pattern in the order of that type's list, and within one pattern by the
  offset of the match in the text: the keys (type index, pattern index, offset) ascend in
  the lexicographic order.
\<close>

theorem entities_in_table_order:
  "\<exists>r. process s = Inr r
       \<and> entities r = map snd (entity_trace (strip (lower s)))
       \<and> sorted (map fst (entity_trace (strip (lower s))))"
proof -
  from recognize_cases [of "strip (lower s)"] obtain i c where
    "recognize_intent (strip (lower s)) = Inr (i, c)" by blast
  from process_result [OF this] show ?thesis
    by (simp add: entity_trace_entities entity_trace_sorted)
qed

text \<open>
  Claim C6 as stated fails: in \<open>2 deluxe\<close> the number starts at offset 0 and the room
  type at offset 2, and the room type is listed first.
\<close>

theorem entities_match_order_counterexample:
  "map match_offset (entity_trace (strip (lower ''2 deluxe''))) = [2, 0]
   \<and> map ent_value (map snd (entity_trace (strip (lower ''2 deluxe'')))) = [''deluxe'', ''2'']
   \<and> \<not> sorted (map match_offset (entity_trace (strip (lower ''2 deluxe''))))"
  using trace_2_deluxe by (simp add: normal_2_deluxe)

section \<open>Properties of the response generator\<close>

subsection \<open>Fetching room data\<close>

lemma ensure_fields:
  assumes "ensure_room_data db c = Inr c1"
  shows "ctx_intent c1 = ctx_intent c" "ctx_entities c1 = ctx_entities c"
    "user_query c1 = user_query c" "room_type_entities c1 = room_type_entities c"
  using assms
  by (auto simp: ensure_room_data_def room_type_entities_def split: if_splits sum.splits)

lemma ensure_rooms:
  assumes "ensure_room_data db c = Inr c1"
  shows "(rooms_of c \<noteq> [] \<and> c1 = c)
         \<or> (rooms_of c = [] \<and> get_rooms db True = Inr (rooms_of c1)
             \<and> c1 = c\<lparr>room_data := Some (rooms_of c1)\<rparr>)"
  using assms
  by (auto simp: ensure_room_data_def rooms_of_def split: if_splits sum.splits)

lemma ensure_idem:
  assumes "ensure_room_data db c = Inr c1"
  shows "ensure_room_data db c1 = Inr c1"
proof -
  from ensure_rooms [OF assms] show ?thesis
  proof
    assume "rooms_of c \<noteq> [] \<and> c1 = c"
    then show ?thesis by (simp add: ensure_room_data_def)
  next
    assume a: "rooms_of c = [] \<and> get_rooms db True = Inr (rooms_of c1)
             \<and> c1 = c\<lparr>room_data := Some (rooms_of c1)\<rparr>"
    then have "c1 = c\<lparr>room_data := Some (rooms_of c1)\<rparr>" by simp
    then have u: "c1\<lparr>room_data := Some (rooms_of c1)\<rparr> = c1"
      by (metis ResponseContext.update_convs(4) ResponseContext.surjective)
    show ?thesis
    proof (cases "rooms_of c1 = []")
      case True
      have "ensure_room_data db c1 = Inr (c1\<lparr>room_data := Some (rooms_of c1)\<rparr>)"
        using a True by (simp add: ensure_room_data_def)
      then show ?thesis using u by simp
    next
      case False
      then show ?thesis by (simp add: ensure_room_data_def)
    qed
  qed
qed

lemma matching_idem: "matching_rooms v (matching_rooms v rs) = matching_rooms v rs"
  by (simp add: matching_rooms_def)

lemma rooms_of_update: "rooms_of (c\<lparr>room_data := Some rs\<rparr>) = rs"
  by (simp add: rooms_of_def)

lemma entities_update:
  "room_type_entities (c\<lparr>room_data := x\<rparr>) = room_type_entities c"
  by (simp add: room_type_entities_def)

lemma reply_with_Inr:
  "reply_with body c = Inr (out, c1) \<longleftrightarrow> body = Inr out \<and> c1 = c"
  by (cases body) (auto simp: reply_with_def)

lemma price_query_again:
  assumes "handle_price_query cfg db c = Inr (out, c1)"
  shows "handle_price_query cfg db c1 = Inr (out, c1) \<and> ctx_intent c1 = ctx_intent c"
proof -
  from assms obtain c' where e: "ensure_room_data db c = Inr c'"
    by (auto simp: handle_price_query_def split: sum.splits)
  have c1: "c1 = c'"
    using assms e by (auto simp: handle_price_query_def reply_with_Inr split: list.splits)
  have e1: "ensure_room_data db c1 = Inr c1" using ensure_idem [OF e] c1 by simp
  have "ctx_intent c1 = ctx_intent c" using ensure_fields(1) [OF e] c1 by simp
  then show ?thesis using assms by (simp add: handle_price_query_def e e1 c1 [symmetric])
qed

lemma availability_again:
  assumes "handle_availability cfg db c = Inr (out, c1)"
  shows "handle_availability cfg db c1 = Inr (out, c1) \<and> ctx_intent c1 = ctx_intent c"
proof -
  from assms obtain c' where e: "ensure_room_data db c = Inr c'"
    by (auto simp: handle_availability_def split: sum.splits)
  have c1: "c1 = c'"
    using assms e
    by (auto simp: handle_availability_def reply_with_Inr split: list.splits if_splits)
  have e1: "ensure_room_data db c1 = Inr c1" using ensure_idem [OF e] c1 by simp
  have "ctx_intent c1 = ctx_intent c" using ensure_fields(1) [OF e] c1 by simp
  then show ?thesis using assms by (simp add: handle_availability_def e e1 c1 [symmetric])
qed

lemma rate_comparison_again:
  assumes "handle_rate_comparison cfg db c = Inr (out, c1)"
  shows "handle_rate_comparison cfg db c1 = Inr (out, c1) \<and> ctx_intent c1 = ctx_intent c"
proof -
  from assms obtain c' where e: "ensure_room_data db c = Inr c'"
    by (auto simp: handle_rate_comparison_def split: sum.splits)
  have c1: "c1 = c'"
    using assms e by (auto simp: handle_rate_comparison_def reply_with_Inr)
  have e1: "ensure_room_data db c1 = Inr c1" using ensure_idem [OF e] c1 by simp
  have "ctx_intent c1 = ctx_intent c" using ensure_fields(1) [OF e] c1 by simp
  then show ?thesis using assms by (simp add: handle_rate_comparison_def e e1 c1 [symmetric])
qed

lemma booking_options_again:
  assumes "booking_options cfg db c = Inr (out, c1)"
  shows "booking_options cfg db c1 = Inr (out, c1) \<and> ctx_intent c1 = ctx_intent c"
proof -
  from assms obtain c' where e: "ensure_room_data db c = Inr c'"
    by (auto simp: booking_options_def split: sum.splits)
  have c1: "c1 = c'"
    using assms e by (auto simp: booking_options_def reply_with_Inr)
  have e1: "ensure_room_data db c1 = Inr c1" using ensure_idem [OF e] c1 by simp
  have "ctx_intent c1 = ctx_intent c" using ensure_fields(1) [OF e] c1 by simp
  then show ?thesis using assms by (simp add: booking_options_def e e1 c1 [symmetric])
qed

lemma booking_options_entities:
  assumes "booking_options cfg db c = Inr (out, c1)"
  shows "room_type_entities c1 = room_type_entities c"
proof -
  from assms obtain c' where e: "ensure_room_data db c = Inr c'"
    by (auto simp: booking_options_def split: sum.splits)
  have "c1 = c'" using assms e by (auto simp: booking_options_def reply_with_Inr)
  then show ?thesis using ensure_fields(4) [OF e] by simp
qed

lemma booking_again:
  assumes "handle_booking cfg db c = Inr (out, c1)"
  shows "handle_booking cfg db c1 = Inr (out, c1) \<and> ctx_intent c1 = ctx_intent c"
proof (cases "room_type_entities c")
  case Nil
  then have b: "booking_options cfg db c = Inr (out, c1)"
    using assms by (simp add: handle_booking_def)
  have "room_type_entities c1 = []" using booking_options_entities [OF b] Nil by simp
  then show ?thesis using booking_options_again [OF b] by (simp add: handle_booking_def)
next
  case (Cons e es)
  from assms Cons obtain c' where en: "ensure_room_data db c = Inr c'"
    by (auto simp: handle_booking_def split: sum.splits)
  have ents: "room_type_entities c' = e # es" using ensure_fields(4) [OF en] Cons by simp
  have en': "ensure_room_data db c' = Inr c'" by (rule ensure_idem [OF en])
  have int: "ctx_intent c' = ctx_intent c" by (rule ensure_fields(1) [OF en])
  show ?thesis
  proof (cases "matching_rooms (ent_value e) (rooms_of c')")
    case Nil
    then have b: "booking_options cfg db c' = Inr (out, c1)"
      using assms Cons en by (simp add: handle_booking_def)
    from b obtain c2 where e2: "ensure_room_data db c' = Inr c2"
      by (auto simp: booking_options_def split: sum.splits)
    then have "c2 = c'" using en' by simp
    then have "c1 = c'" using b e2 by (auto simp: booking_options_def reply_with_Inr)
    then show ?thesis using b ents en' Nil int by (simp add: handle_booking_def)
  next
    case (Cons room rest)
    then have "c1 = c'" using assms \<open>room_type_entities c = e # es\<close> en
      by (simp add: handle_booking_def reply_with_Inr)
    then show ?thesis
      using assms \<open>room_type_entities c = e # es\<close> en ents en' Cons int
      by (simp add: handle_booking_def)
  qed
qed

lemma room_query_again:
  assumes run: "handle_room_query cfg db c = Inr (out, c2)"
    and safe: "rooms_of c = [] \<or> get_rooms db True = Inr (rooms_of c)
               \<or> (case room_type_entities c of
                     [] \<Rightarrow> True
                   | e # _ \<Rightarrow> matching_rooms (ent_value e) (rooms_of c) \<noteq> [])"
  shows "handle_room_query cfg db c2 = Inr (out, c2) \<and> ctx_intent c2 = ctx_intent c"
proof -
  from run obtain c1 where en: "ensure_room_data db c = Inr c1"
    by (auto simp: handle_room_query_def split: sum.splits)
  have en1: "ensure_room_data db c1 = Inr c1" by (rule ensure_idem [OF en])
  have ents: "room_type_entities c1 = room_type_entities c" by (rule ensure_fields(4) [OF en])
  have int: "ctx_intent c1 = ctx_intent c" by (rule ensure_fields(1) [OF en])
  show ?thesis
  proof (cases "rooms_of c1 = []")
    case True
    then have "c2 = c1" using run en by (simp add: handle_room_query_def)
    then show ?thesis using run en en1 int by (simp add: handle_room_query_def)
  next
    case nonempty: False
    show ?thesis
    proof (cases "room_type_entities c")
      case Nil
      then have "c2 = c1"
        using run en ents nonempty
        by (auto simp: handle_room_query_def Let_def reply_with_Inr split: list.splits)
      then show ?thesis using run en en1 int by (simp add: handle_room_query_def)
    next
      case (Cons e es)
      define F where "F = matching_rooms (ent_value e) (rooms_of c1)"
      have c2: "c2 = c1\<lparr>room_data := Some F\<rparr>"
        using run en ents nonempty Cons
        by (auto simp: handle_room_query_def Let_def F_def reply_with_Inr split: list.splits)
      have r: "rooms_of c2 = F" using c2 by (simp add: rooms_of_update)
      have int2: "ctx_intent c2 = ctx_intent c" using c2 int by simp
      have "(case rooms_of c2 of [room] \<Rightarrow> reply_with (single_room_text cfg room) c2
                   | rooms \<Rightarrow> reply_with (room_comparison_text cfg rooms) c2) = Inr (out, c2)"
        using run en ents nonempty Cons
        by (auto simp: handle_room_query_def Let_def F_def [symmetric] c2 [symmetric]
            split: list.splits)
      then have out: "(case F of [room] \<Rightarrow> reply_with (single_room_text cfg room) c2
                   | rooms \<Rightarrow> reply_with (room_comparison_text cfg rooms) c2) = Inr (out, c2)"
        unfolding r .
      have ents2: "room_type_entities c2 = e # es"
        using ents Cons c2 by (simp add: entities_update)
      show ?thesis
      proof (cases "F = []")
        case False
        then have r2: "rooms_of c2 = F" "rooms_of c2 \<noteq> []" using c2 by (simp_all add: rooms_of_update)
        then have e2: "ensure_room_data db c2 = Inr c2" by (simp add: ensure_room_data_def)
        have "matching_rooms (ent_value e) (rooms_of c2) = F"
          using r2(1) by (simp add: F_def matching_idem)
        moreover have "c2\<lparr>room_data := Some F\<rparr> = c2" using c2 by simp
        ultimately show ?thesis
          using out e2 r2 ents2 int2
          by (auto simp: handle_room_query_def Let_def rooms_of_update split: list.splits)
      next
        case True
        from ensure_rooms [OF en] have listing: "get_rooms db True = Inr (rooms_of c1)"
        proof
          assume a: "rooms_of c \<noteq> [] \<and> c1 = c"
          then have "matching_rooms (ent_value e) (rooms_of c) = []"
            using True by (simp add: F_def)
          then show ?thesis using safe a Cons by simp
        next
          assume "rooms_of c = [] \<and> get_rooms db True = Inr (rooms_of c1)
             \<and> c1 = c\<lparr>room_data := Some (rooms_of c1)\<rparr>"
          then show ?thesis by simp
        qed
        have r2: "rooms_of c2 = []" using c2 True by (simp add: rooms_of_update)
        have e2: "ensure_room_data db c2 = Inr (c2\<lparr>room_data := Some (rooms_of c1)\<rparr>)"
          using r2 listing by (simp add: ensure_room_data_def)
        have undo: "c2\<lparr>room_data := Some (rooms_of c1)\<rparr>\<lparr>room_data := Some F\<rparr> = c2"
          using c2 by simp
        show ?thesis
          using out e2 r2 nonempty ents2 undo True int2
          by (auto simp: handle_room_query_def Let_def rooms_of_update entities_update
              F_def [symmetric] split: list.splits)
      qed
    qed
  qed
qed

lemma generate_again:
  assumes run: "generate_response cfg db c = Inr (out, c1)"
    and safe: "refetch_safe db c"
  shows "generate_response cfg db c1 = Inr (out, c1)"
proof (cases "ctx_intent c")
  case QUERY_ROOMS
  then have h: "handle_room_query cfg db c = Inr (out, c1)"
    using run by (simp add: generate_response_def)
  have "rooms_of c = [] \<or> get_rooms db True = Inr (rooms_of c)
               \<or> (case room_type_entities c of
                     [] \<Rightarrow> True
                   | e # _ \<Rightarrow> matching_rooms (ent_value e) (rooms_of c) \<noteq> [])"
    using safe QUERY_ROOMS by (simp add: refetch_safe_def)
  from room_query_again [OF h this] show ?thesis
    using QUERY_ROOMS by (simp add: generate_response_def)
next
  case QUERY_PRICES
  then have "handle_price_query cfg db c = Inr (out, c1)"
    using run by (simp add: generate_response_def)
  from price_query_again [OF this] show ?thesis
    using QUERY_PRICES by (simp add: generate_response_def)
next
  case CHECK_AVAILABILITY
  then have "handle_availability cfg db c = Inr (out, c1)"
    using run by (simp add: generate_response_def)
  from availability_again [OF this] show ?thesis
    using CHECK_AVAILABILITY by (simp add: generate_response_def)
next
  case COMPARE_RATES
  then have "handle_rate_comparison cfg db c = Inr (out, c1)"
    using run by (simp add: generate_response_def)
  from rate_comparison_again [OF this] show ?thesis
    using COMPARE_RATES by (simp add: generate_response_def)
next
  case BOOK_ROOM
  then have "handle_booking cfg db c = Inr (out, c1)"
    using run by (simp add: generate_response_def)
  from booking_again [OF this] show ?thesis
    using BOOK_ROOM by (simp add: generate_response_def)
next
  case GREETING
  then have "c1 = c" using run
    by (auto simp: generate_response_def handle_greeting_def split: sum.splits)
  then show ?thesis using run by simp
next
  case GOODBYE
  then have "c1 = c" using run
    by (auto simp: generate_response_def handle_goodbye_def split: sum.splits)
  then show ?thesis using run by simp
next
  case HELP
  then have "c1 = c" using run
    by (auto simp: generate_response_def handle_help_def split: sum.splits list.splits)
  then show ?thesis using run by simp
next
  case UNKNOWN
  then have "c1 = c" using run
    by (auto simp: generate_response_def handle_unknown_def)
  then show ?thesis using run by simp
qed

subsection \<open>Digits and thousands separators\<close>










section \<open>Claims about the response generator and the orchestrator\<close>




lemma sold_out_query_safe: "refetch_safe suite_sold_out_store suite_query"
  by code_simp

lemma sold_out_query_text:
  "generate_response default_config suite_sold_out_store suite_query
     = Inr (concat [''We have 0 room types available:'', NL, NL, NL, glyph_sparkles,
                    '' *All prices are 15% off OTA rates when you book direct!*''],
            suite_query\<lparr>room_data := Some []\<rparr>)"
  by code_simp

text \<open>
  Claim C8, as amended. Two calls of \<open>generate\<close> in succession on one context object,
  with the store unchanged, give the same text (and the second call raises only if the
  first does), provided the context is one whose room data the room-type filter of the
  room query cannot empty unless it is the store's own listing: the intent is not
  \<open>QUERY_ROOMS\<close>, or the context brings no room data, or it brings the store's current
  listing, or it names no room type, or one of its rooms matches the type.
\<close>

theorem generate_twice_same:
  "refetch_safe db context \<Longrightarrow>
   (case generate_response cfg db context of
      Inl e \<Rightarrow> generate_twice cfg db context = Inl e
    | Inr (out, context1) \<Rightarrow> generate_twice cfg db context = Inr (out, out))"
proof -
  assume safe: "refetch_safe db context"
  show ?thesis
  proof (cases "generate_response cfg db context")
    case (Inl e)
    then show ?thesis by (simp add: generate_twice_def)
  next
    case (Inr r)
    obtain out context1 where r: "r = (out, context1)" by (cases r)
    have "generate_response cfg db context1 = Inr (out, context1)"
      using Inr r safe by (auto intro: generate_again)
    then show ?thesis using Inr r by (simp add: generate_twice_def)
  qed
qed

theorem generate_twice_same_witness:
  "generate_twice default_config suite_sold_out_store suite_query
     = Inr (concat [''We have 0 room types available:'', NL, NL, NL, glyph_sparkles,
                    '' *All prices are 15% off OTA rates when you book direct!*''],
            concat [''We have 0 room types available:'', NL, NL, NL, glyph_sparkles,
                    '' *All prices are 15% off OTA rates when you book direct!*''])"
  using generate_twice_same [OF sold_out_query_safe, of default_config]
  by (simp add: sold_out_query_text)

text \<open>
  Claim C8 as stated fails: a room query for the suite whose context carries the deluxe
  room alone. The first call filters the room data down to nothing and reports 0 room
  types; the second finds the data empty, fetches the store's listing and presents the
  suite.
\<close>

theorem generate_twice_counterexample:
  "generate_twice default_config seed_store caller_supplied_query
     = Inr (concat [''We have 0 room types available:'', NL, NL, NL, glyph_sparkles,
                    '' *All prices are 15% off OTA rates when you book direct!*''],
            concat [''Great choice! Our **Suite Room** is available (5 rooms left).'', NL, NL,
                    glyph_money, '' **Pricing:** OTA sites charge '', rupee,
                    ''8,000/night, but book direct for just '', rupee, ''6,800 - save '',
                    rupee, ''1,200!'', NL, NL, ''Ready to book?''])
   \<and> concat [''We have 0 room types available:'', NL, NL, NL, glyph_sparkles,
              '' *All prices are 15% off OTA rates when you book direct!*'']
       \<noteq> concat [''Great choice! Our **Suite Room** is available (5 rooms left).'', NL, NL,
                  glyph_money, '' **Pricing:** OTA sites charge '', rupee,
                  ''8,000/night, but book direct for just '', rupee, ''6,800 - save '',
                  rupee, ''1,200!'', NL, NL, ''Ready to book?'']"
  by code_simp

text \<open>
  Claim C5: what the code does when the filter leaves no room. On the store whose suite is
  sold out, a room query for the suite is answered with the heading of the comparison for
  0 room types and the closing note, not with the apology; the apology is given only when
  there is no room before the filter.
\<close>

theorem room_query_filtered_empty:
  "generate_response default_config suite_sold_out_store suite_query
     = Inr (concat [''We have 0 room types available:'', NL, NL, NL, glyph_sparkles,
                    '' *All prices are 15% off OTA rates when you book direct!*''],
            suite_query\<lparr>room_data := Some []\<rparr>)
   \<and> concat [''We have 0 room types available:'', NL, NL, NL, glyph_sparkles,
              '' *All prices are 15% off OTA rates when you book direct!*'']
       \<noteq> no_rooms_text"
  by code_simp

text \<open>
  Claim C4: what the code does when the second completion has no content. The model asks
  for the tool and then returns a message without content; the orchestrator returns that
  empty content (\<open>None\<close>), while the rule-based generator on the same context gives the
  greeting.
\<close>

theorem fallback_skipped_after_tool_call:
  "process ''hi''
     = Inr \<lparr>intent = GREETING, confidence = 1, entities = [], original_text = ''hi''\<rparr>
   \<and> get_agent_response default_config seed_store (Some silent_after_tool) ''hi'' (Some True)
       = Inr None
   \<and> fallback_response default_config seed_store
         \<lparr>intent = GREETING, confidence = 1, entities = [], original_text = ''hi''\<rparr> [] None
       = Inr (Some (concat [''Hi there! '', glyph_wave,
                            '' I'', [CHR 0x27], ''m your booking assistant. I can show you rooms, prices, and help you save 15% by booking direct. What are you looking for?'']))"
  by code_simp

lemma process_suites_example:
  "process ''Do you have any suites available?''
     = Inr \<lparr>intent = QUERY_ROOMS, confidence = 1 / 6, entities = [],
            original_text = ''Do you have any suites available?''\<rparr>"
  by code_simp

text \<open>
  Claim C3: what the code does when the suite is sold out. End to end, on \<open>is suite free\<close>
  (intent \<open>CHECK_AVAILABILITY\<close>, room type \<open>suite\<close>) the reply is the list of the
  other rooms: \<open>get_rooms\<close> leaves out rooms without inventory, so the handler never
  sees the suite. The handler itself, given room data that holds the sold-out suite,
  answers that it is sold out. The claim's own example is classified as \<open>QUERY_ROOMS\<close>
  without any entity.
\<close>

theorem sold_out_never_reported:
  "get_agent_response default_config suite_sold_out_store None ''is suite free'' None
     = Inr (Some (concat [''We have 3 room types available:'', NL, NL,
                          ''- Standard Room: 15 rooms at '', rupee, ''2,550'', NL,
                          ''- Deluxe Room: 10 rooms at '', rupee, ''4,250'', NL,
                          ''- Executive Room: 8 rooms at '', rupee, ''5,525'', NL, NL,
                          glyph_bulb, '' Book directly to save 15%!'']))
   \<and> generate_response default_config suite_sold_out_store sold_out_check
       = Inr (''Sorry, Suite Room is currently sold out. Can I suggest another room type?'',
              sold_out_check)
   \<and> process ''Do you have any suites available?''
       = Inr \<lparr>intent = QUERY_ROOMS, confidence = 1 / 6, entities = [],
              original_text = ''Do you have any suites available?''\<rparr>"
proof -
  have "get_agent_response default_config suite_sold_out_store None ''is suite free'' None
     = Inr (Some (concat [''We have 3 room types available:'', NL, NL,
                          ''- Standard Room: 15 rooms at '', rupee, ''2,550'', NL,
                          ''- Deluxe Room: 10 rooms at '', rupee, ''4,250'', NL,
                          ''- Executive Room: 8 rooms at '', rupee, ''5,525'', NL, NL,
                          glyph_bulb, '' Book directly to save 15%!'']))"
    by code_simp
  moreover have "generate_response default_config suite_sold_out_store sold_out_check
       = Inr (''Sorry, Suite Room is currently sold out. Can I suggest another room type?'',
              sold_out_check)"
    by code_simp
  ultimately show ?thesis using process_suites_example by simp
qed


end
